theory Spec2Isabelle
  imports Main "HOL-Library.Sublist"
begin

section \<open>Python values, dictionaries, exceptions and the event trace\<close>

text \<open>
  A value held in a record of the scraper is either \<open>None\<close> (an attribute that is
  absent) or a string. Texts are held as \<open>.text.strip()\<close> returns them.
\<close>

datatype pyval = PNone | PStr string

text \<open>\<open>get_attribute\<close> returns \<open>None\<close> for an absent attribute.\<close>

fun of_attr :: "string option \<Rightarrow> pyval" where
  "of_attr None = PNone"
| "of_attr (Some s) = PStr s"

text \<open>Python's \<open>str(x)\<close> on such a value.\<close>

fun py_str :: "pyval \<Rightarrow> string" where
  "py_str PNone = ''None''"
| "py_str (PStr s) = s"

text \<open>
  A \<open>dict\<close> keeps insertion order: an association list with distinct keys.
  \<open>dict_set\<close> is \<open>d[k] = v\<close>; \<open>dict_merge a b\<close> is \<open>{**a, **b}\<close>, and \<open>a.update(b)\<close>.
\<close>

type_synonym pydict = "(string \<times> pyval) list"

fun dict_set :: "'k \<Rightarrow> 'v \<Rightarrow> ('k \<times> 'v) list \<Rightarrow> ('k \<times> 'v) list" where
  "dict_set k v [] = [(k, v)]"
| "dict_set k v (p # d) = (if fst p = k then (k, v) # d else p # dict_set k v d)"

definition dict_merge :: "('k \<times> 'v) list \<Rightarrow> ('k \<times> 'v) list \<Rightarrow> ('k \<times> 'v) list" where
  "dict_merge a b = foldl (\<lambda>d p. dict_set (fst p) (snd p) d) a b"

datatype exn =
    NoSuchElementException
  | TimeoutException
  | StaleElementReferenceException
  | ElementClickInterceptedException
  | TypeError
  | PermissionError
  | OSError
  | InvalidFileException

datatype level = INFO | WARNING | ERROR

text \<open>The log messages of \<open>scraper.py\<close>, one constructor per \<open>logging\<close> call.\<close>

datatype msg =
    NoExistingFile
  | LoadedIds nat
  | NoBidIdColumn
  | ReadError exn
  | CreatedFile
  | PermissionDenied
  | SaveFailed exn
  | Navigated string
  | ProcessingCategory string
  | CategoryFailed string exn
  | RowError exn
  | NoMorePages
  | Skipping pyval
  | Saved pyval
  | DocLinksFailed exn
  | PaginationFailed exn
  | ScrapingComplete

text \<open>
  What a run does to the outside, in order: log lines and the browser actions.
  Every function returns the events it emitted.
\<close>

datatype event =
    Log level msg
  | Get string
  | ClickTab string
  | WaitRows
  | FindRows
  | ClickTitle
  | WaitModal
  | SendEscape
  | ClickNext
  | Quit

text \<open>The two events of the page loop: the wait for the grid, the reading of its rows.\<close>

definition grid_event :: "event \<Rightarrow> bool" where
  "grid_event e = (e = WaitRows \<or> e = FindRows)"

section \<open>The Excel file\<close>

text \<open>
  The file at \<open>EXCEL_FILE\<close> is absent, present but unreadable, or a sheet: a header row
  and the data rows under it, as \<open>pd.read_excel\<close> sees them. A write attempt can be
  refused by the operating system; \<open>wfaults\<close> schedules the outcome of the coming write
  attempts (\<open>None\<close>, or the list exhausted: the write goes through).
\<close>

datatype io_fault = Denied | Failed

fun fault_exn :: "io_fault \<Rightarrow> exn" where
  "fault_exn Denied = PermissionError"
| "fault_exn Failed = OSError"

datatype xlsx = Unreadable | Sheet "string list" "pyval list list"

record disk =
  xlsx_file :: "xlsx option"
  wfaults :: "io_fault option list"

definition next_fault :: "disk \<Rightarrow> io_fault option" where
  "next_fault d = (case wfaults d of [] \<Rightarrow> None | f # _ \<Rightarrow> f)"

text \<open>
  \<open>append_to_excel\<close>: the creation of a new file stands before the \<open>try\<close>, so a fault
  there is raised to the caller (\<open>Inl\<close>); a fault of the append to an existing file is
  caught and logged, and the function returns \<open>None\<close> as after a success.
\<close>

definition append_to_excel :: "pydict \<Rightarrow> disk \<Rightarrow> (exn + unit) \<times> disk \<times> event list" where
  "append_to_excel bid_data d =
     (let header = map fst bid_data; df_row = map snd bid_data; rest = tl (wfaults d) in
      case xlsx_file d of
        None \<Rightarrow>
          (case next_fault d of
             Some f \<Rightarrow> (Inl (fault_exn f), d\<lparr>wfaults := rest\<rparr>, [])
           | None \<Rightarrow>
               (Inr (), \<lparr>xlsx_file = Some (Sheet header [df_row]), wfaults = rest\<rparr>,
                [Log INFO CreatedFile]))
      | Some x \<Rightarrow>
          (case next_fault d of
             Some Denied \<Rightarrow> (Inr (), d\<lparr>wfaults := rest\<rparr>, [Log ERROR PermissionDenied])
           | Some Failed \<Rightarrow> (Inr (), d\<lparr>wfaults := rest\<rparr>, [Log ERROR (SaveFailed OSError)])
           | None \<Rightarrow>
               (case x of
                  Unreadable \<Rightarrow>
                    (Inr (), d\<lparr>wfaults := rest\<rparr>, [Log ERROR (SaveFailed InvalidFileException)])
                | Sheet hdr recs \<Rightarrow>
                    (Inr (), \<lparr>xlsx_file = Some (Sheet hdr (recs @ [df_row])), wfaults = rest\<rparr>,
                     []))))"

text \<open>
  The value of column \<open>k\<close> in a data row; a row shorter than the header has a missing
  value there.
\<close>

definition column_value :: "string list \<Rightarrow> pyval list \<Rightarrow> string \<Rightarrow> pyval" where
  "column_value hdr r k = (case map_of (zip hdr r) k of None \<Rightarrow> PNone | Some v \<Rightarrow> v)"

text \<open>
  \<open>load_processed_bid_ids\<close>. What \<open>astype(str)\<close> makes of a cell read back from the file
  is pandas' business, not the scraper's: it is the parameter \<open>astype_str\<close>.
\<close>

definition load_processed_bid_ids :: "(pyval \<Rightarrow> string) \<Rightarrow> disk \<Rightarrow> string set \<times> event list" where
  "load_processed_bid_ids astype_str d =
     (case xlsx_file d of
        None \<Rightarrow> ({}, [Log INFO NoExistingFile])
      | Some Unreadable \<Rightarrow> ({}, [Log ERROR (ReadError InvalidFileException)])
      | Some (Sheet hdr recs) \<Rightarrow>
          if ''Bid ID'' \<in> set hdr
          then (let ids = map (\<lambda>r. astype_str (column_value hdr r ''Bid ID'')) recs
                in (set ids, [Log INFO (LoadedIds (length (remdups ids)))]))
          else ({}, [Log WARNING NoBidIdColumn]))"

text \<open>
  pandas writes a missing value as an empty cell, reads an empty cell back as \<open>NaN\<close>, and
  \<open>astype(str)\<close> turns \<open>NaN\<close> into \<open>nan\<close>; a text cell is taken to come back as written.
\<close>

fun pandas_astype_str :: "pyval \<Rightarrow> string" where
  "pandas_astype_str PNone = ''nan''"
| "pandas_astype_str (PStr s) = s"

section \<open>The page: rows, cells, the details modal\<close>

text \<open>
  What can go wrong in the browser is part of the page: a title cell without a link
  (\<open>find_element\<close> raises), a modal that does not appear within the wait, a document
  link gone stale, a grid without rows, a pagination control that is missing or has no
  \<open>class\<close>, a tab that does not become clickable. Every other call on the browser is
  taken to succeed.
\<close>

record cell =
  title :: "string option"
  cell_text :: string
  anchor :: bool

datatype link = Link string "string option" | StaleLink

record modal =
  contact_email :: "string option"
  ad_date :: "string option"
  response_deadline :: "string option"
  important_message :: "string option"
  doc_links :: "link list"

record row =
  cells :: "cell list"
  detail :: "modal option"

text \<open>\<open>get_text\<close>: the text of the element, \<open>N/A\<close> when it is not found.\<close>

fun get_text :: "string option \<Rightarrow> pyval" where
  "get_text None = PStr ''N/A''"
| "get_text (Some t) = PStr t"

text \<open>
  The loop over the document links runs inside a \<open>try\<close>: a link that has gone stale ends
  the loop with a warning, and the links read so far are kept.
\<close>

fun collect_documents :: "link list \<Rightarrow> pydict \<Rightarrow> pydict \<times> event list" where
  "collect_documents [] documents = (documents, [])"
| "collect_documents (Link t href # ls) documents =
     collect_documents ls (dict_set t (of_attr href) documents)"
| "collect_documents (StaleLink # ls) documents =
     (documents, [Log WARNING (DocLinksFailed StaleElementReferenceException)])"

text \<open>
  \<open>extract_modal_data\<close>; \<open>dict_str\<close> is Python's \<open>str\<close> on a dictionary.
\<close>

definition extract_modal_data :: "(pydict \<Rightarrow> string) \<Rightarrow> modal \<Rightarrow> pydict \<times> event list" where
  "extract_modal_data dict_str m =
     (case collect_documents (doc_links m) [] of
        (documents, evs) \<Rightarrow>
          ([(''Contact Email'', get_text (contact_email m)),
            (''Solicitation Ad Date'', get_text (ad_date m)),
            (''Deadline for Bid Responses'', get_text (response_deadline m)),
            (''Important Message'', get_text (important_message m)),
            (''Documents'', if documents \<noteq> [] then PStr (dict_str documents) else PStr ''N/A'')],
           evs))"

definition bid_summary :: "string \<Rightarrow> cell list \<Rightarrow> pydict" where
  "bid_summary category_name cs =
     [(''Category'', PStr category_name),
      (''Bid ID'', of_attr (title (cs ! 0))),
      (''Contract Number'', PStr (cell_text (cs ! 1))),
      (''Title'', PStr (cell_text (cs ! 2))),
      (''Open Date'', PStr (cell_text (cs ! 3))),
      (''Deadline'', PStr (cell_text (cs ! 4))),
      (''Agency'', PStr (cell_text (cs ! 5))),
      (''UNSPSC'', PStr (cell_text (cs ! 6)))]"

text \<open>
  The state a run threads through its rows: the file, and the set
  \<open>processed_bid_ids\<close>.
\<close>

type_synonym state = "disk \<times> string set"

text \<open>\<open>process_bid_row\<close>: \<open>Inl e\<close> is the exception that leaves the function.\<close>

definition process_bid_row ::
  "(pydict \<Rightarrow> string) \<Rightarrow> row \<Rightarrow> string \<Rightarrow> state \<Rightarrow> (exn + unit) \<times> state \<times> event list" where
  "process_bid_row dict_str r category_name st =
     (let cs = cells r in
      if length cs < 7 then (Inr (), st, [])
      else
        let bid_id = of_attr (title (cs ! 0)) in
        if py_str bid_id \<in> snd st then (Inr (), st, [Log INFO (Skipping bid_id)])
        else if \<not> anchor (cs ! 2) then (Inl NoSuchElementException, st, [])
        else
          (case detail r of
             None \<Rightarrow> (Inl TimeoutException, st, [ClickTitle, WaitModal])
           | Some m \<Rightarrow>
               (case extract_modal_data dict_str m of
                  (modal_data, evs) \<Rightarrow>
                    (case append_to_excel (dict_merge (bid_summary category_name cs) modal_data) (fst st) of
                       (Inl e, d, evs') \<Rightarrow>
                         (Inl e, (d, snd st), [ClickTitle, WaitModal] @ evs @ [SendEscape] @ evs')
                     | (Inr u, d, evs') \<Rightarrow>
                         (Inr (), (d, insert (py_str bid_id) (snd st)),
                          [ClickTitle, WaitModal] @ evs @ [SendEscape] @ evs' @
                          [Log INFO (Saved bid_id)])))))"

section \<open>The row loop, pagination and the categories\<close>

text \<open>
  The \<open>for row in rows\<close> loop of \<open>scrape_bids_from_table\<close>: an exception of
  \<open>process_bid_row\<close> is logged, and the loop goes on with the next row.
\<close>

fun scrape_rows ::
  "(pydict \<Rightarrow> string) \<Rightarrow> string \<Rightarrow> row list \<Rightarrow> state \<Rightarrow> state \<times> event list" where
  "scrape_rows dict_str category_name [] st = (st, [])"
| "scrape_rows dict_str category_name (r # rs) st =
     (case process_bid_row dict_str r category_name st of
        (res, st1, ev1) \<Rightarrow>
          (case scrape_rows dict_str category_name rs st1 of
             (st2, ev2) \<Rightarrow>
               (st2,
                ev1 @ (case res of Inl e \<Rightarrow> [Log ERROR (RowError e)] | Inr u \<Rightarrow> []) @ ev2)))"

text \<open>
  The grid of a category is the list of its pages, the page on display first. The
  pagination control of a page is missing, or carries a \<open>class\<close> attribute.
\<close>

datatype next_button = NoButton | Button "string option"

record page =
  page_rows :: "row list"
  next_btn :: next_button

text \<open>
  \<open>navigate_to_next_page\<close> returns whether it clicked, and the pages left. Every
  exception is caught inside: a missing control, and \<open>in\<close> on a \<open>class\<close> that is
  \<open>None\<close>.
\<close>

definition navigate_to_next_page :: "page list \<Rightarrow> bool \<times> page list \<times> event list" where
  "navigate_to_next_page pages =
     (case pages of
        [] \<Rightarrow> (False, pages, [Log ERROR (PaginationFailed NoSuchElementException)])
      | p # ps \<Rightarrow>
          (case next_btn p of
             NoButton \<Rightarrow> (False, pages, [Log ERROR (PaginationFailed NoSuchElementException)])
           | Button None \<Rightarrow> (False, pages, [Log ERROR (PaginationFailed TypeError)])
           | Button (Some c) \<Rightarrow>
               if sublist ''disabled'' c \<or> sublist ''ui-jqgrid-disablePointerEvents'' c
               then (False, pages, [])
               else (True, ps, [ClickNext])))"

text \<open>
  \<open>scrape_bids_from_table\<close>: the wait for a row of the grid times out when no page
  is on display or the page has no row, and that exception leaves the function.
\<close>

function scrape_bids_from_table ::
  "(pydict \<Rightarrow> string) \<Rightarrow> string \<Rightarrow> page list \<Rightarrow> state
     \<Rightarrow> (exn + unit) \<times> page list \<times> state \<times> event list" where
  "scrape_bids_from_table dict_str category_name pages st =
     (if pages = [] \<or> page_rows (hd pages) = []
      then (Inl TimeoutException, pages, st, [WaitRows])
      else
        (case scrape_rows dict_str category_name (page_rows (hd pages)) st of
           (st1, ev1) \<Rightarrow>
             (case navigate_to_next_page pages of
                (clicked, pages1, ev2) \<Rightarrow>
                  if clicked
                  then
                    (case scrape_bids_from_table dict_str category_name pages1 st1 of
                       (res, pages2, st2, ev3) \<Rightarrow>
                         (res, pages2, st2, [WaitRows, FindRows] @ ev1 @ ev2 @ ev3))
                  else
                    (Inr (), pages1, st1,
                     [WaitRows, FindRows] @ ev1 @ ev2 @ [Log INFO NoMorePages]))))"
  by pat_completeness auto
termination
  by (relation "measure (\<lambda>(ds, c, pages, st). length pages)")
     (auto simp: navigate_to_next_page_def split: list.splits next_button.splits option.splits if_splits)

declare scrape_bids_from_table.simps [simp del]

definition categories :: "(string \<times> string) list" where
  "categories =
     [(''Open'', ''btnOpen''), (''Recently Closed'', ''btnClosed''),
      (''Not Awarded'', ''btnNotAwarded'')]"

text \<open>
  The site gives, for the id of a tab, the grid shown after a click on it; \<open>None\<close> when
  the tab does not become clickable within the wait. The loop of
  \<open>process_bid_categories\<close> catches every exception of a category.
\<close>

fun process_categories ::
  "(pydict \<Rightarrow> string) \<Rightarrow> (string \<Rightarrow> page list option) \<Rightarrow> (string \<times> string) list \<Rightarrow> state
     \<Rightarrow> state \<times> event list" where
  "process_categories dict_str site [] st = (st, [])"
| "process_categories dict_str site (c # cs) st =
     (case
        (case site (snd c) of
           None \<Rightarrow> (st, [Log ERROR (CategoryFailed (fst c) TimeoutException)])
         | Some pages \<Rightarrow>
             (case scrape_bids_from_table dict_str (fst c) pages st of
                (Inl e, pages1, st1, evs) \<Rightarrow>
                  (st1, [ClickTab (snd c)] @ evs @ [Log ERROR (CategoryFailed (fst c) e)])
              | (Inr u, pages1, st1, evs) \<Rightarrow> (st1, [ClickTab (snd c)] @ evs)))
      of (st1, ev1) \<Rightarrow>
        (case process_categories dict_str site cs st1 of
           (st2, ev2) \<Rightarrow> (st2, [Log INFO (ProcessingCategory (fst c))] @ ev1 @ ev2)))"

definition process_bid_categories ::
  "(pydict \<Rightarrow> string) \<Rightarrow> (string \<Rightarrow> page list option) \<Rightarrow> state \<Rightarrow> state \<times> event list" where
  "process_bid_categories dict_str site st = process_categories dict_str site categories st"

definition BASE_URL :: string where
  "BASE_URL = ''https://mmp.delaware.gov/Bids/''"

text \<open>
  \<open>main\<close>, from the loading of the processed ids on: the file it leaves and the events
  of the run.
\<close>

definition main ::
  "(pyval \<Rightarrow> string) \<Rightarrow> (pydict \<Rightarrow> string) \<Rightarrow> (string \<Rightarrow> page list option) \<Rightarrow> disk
     \<Rightarrow> disk \<times> event list" where
  "main astype_str dict_str site d =
     (case load_processed_bid_ids astype_str d of
        (processed_bid_ids, ev0) \<Rightarrow>
          (case process_bid_categories dict_str site (d, processed_bid_ids) of
             (st, ev1) \<Rightarrow>
               (fst st,
                ev0 @ [Get BASE_URL, Log INFO (Navigated BASE_URL)] @ ev1 @
                [Quit, Log INFO ScrapingComplete])))"

section \<open>\<open>end.py\<close>: the row loop of \<open>process_bids_for_status\<close>\<close>

text \<open>
  The second scraper collects its records in the list \<open>all_bids_list\<close>. A value of a
  record is a text, or the list of the \<open>href\<close> attributes of the document links.
\<close>

datatype jval = JStr string | JList "string option list"

type_synonym jdict = "(string \<times> jval) list"

text \<open>
  The pop-up of a row. \<open>p_header = None\<close>: the header does not become visible within
  the wait; a field that is \<open>None\<close> is an element that is not found.
\<close>

record popup =
  p_header :: "string option"
  p_solicitation :: "string option"
  p_deadline :: "string option"
  p_contact_name :: "string option"
  p_contact_email :: "string option"
  p_document_links :: "string option list"

record table_row =
  cols :: "string list"
  click_ok :: bool
  details_popup :: popup
  close_btn :: "bool option"

datatype print_msg =
    CouldNotExtract exn
  | ErrorProcessingRow exn
  | CouldNotCloseStray exn

datatype action = Print print_msg | RowClick | WaitHeader | FindClose | CloseClick

text \<open>The fields are read in order; the first that is missing ends the reading.\<close>

fun read_fields :: "(string \<times> string option) list \<Rightarrow> jdict \<Rightarrow> jdict \<times> bool" where
  "read_fields [] details = (details, True)"
| "read_fields ((k, None) # fs) details = (details, False)"
| "read_fields ((k, Some t) # fs) details = read_fields fs (dict_set k (JStr t) details)"

definition extract_bid_details :: "popup \<Rightarrow> jdict \<times> action list" where
  "extract_bid_details p =
     (case p_header p of
        None \<Rightarrow> ([], [WaitHeader, Print (CouldNotExtract TimeoutException)])
      | Some h \<Rightarrow>
          (case read_fields
                  [(''header'', Some h),
                   (''solicitation_ad_date'', p_solicitation p),
                   (''deadline'', p_deadline p),
                   (''contact_name'', p_contact_name p),
                   (''contact_email'', p_contact_email p)] [] of
             (details, True) \<Rightarrow>
               (dict_set ''document_links'' (JList (p_document_links p)) details, [WaitHeader])
           | (details, False) \<Rightarrow>
               (details, [WaitHeader, Print (CouldNotExtract NoSuchElementException)])))"

text \<open>
  The body of the \<open>try\<close> for one row: \<open>Inl e\<close> is the exception that reaches the
  handler. A click on the row, or on the close button, can be refused.
\<close>

definition process_bids_for_status_row ::
  "string \<Rightarrow> table_row \<Rightarrow> jdict list \<Rightarrow> (exn + unit) \<times> jdict list \<times> action list" where
  "process_bids_for_status_row status r all_bids_list =
     (let cs = cols r in
      if length cs < 6 then (Inr (), all_bids_list, [])
      else if \<not> click_ok r then (Inl ElementClickInterceptedException, all_bids_list, [RowClick])
      else
        (case extract_bid_details (details_popup r) of
           (detail_data, evs) \<Rightarrow>
             (let bid_data =
                    dict_merge
                      [(''Contract Number'', JStr (cs ! 0)),
                       (''Contract Title'', JStr (cs ! 1)),
                       (''Open Date'', JStr (cs ! 2)),
                       (''Deadline Date'', JStr (cs ! 3)),
                       (''Agency Code'', JStr (cs ! 4)),
                       (''UNSPSC'', JStr (cs ! 5)),
                       (''Status'', JStr status)] detail_data
              in case close_btn r of
                   None \<Rightarrow> (Inr (), all_bids_list @ [bid_data], [RowClick] @ evs @ [FindClose])
                 | Some True \<Rightarrow>
                     (Inr (), all_bids_list @ [bid_data], [RowClick] @ evs @ [FindClose, CloseClick])
                 | Some False \<Rightarrow>
                     (Inl ElementClickInterceptedException, all_bids_list,
                      [RowClick] @ evs @ [FindClose, CloseClick]))))"

text \<open>The handler's own \<open>try\<close>: look for the close button and click it.\<close>

definition close_stray_modal :: "table_row \<Rightarrow> action list" where
  "close_stray_modal r =
     (case close_btn r of
        None \<Rightarrow> [FindClose]
      | Some True \<Rightarrow> [FindClose, CloseClick]
      | Some False \<Rightarrow>
          [FindClose, CloseClick, Print (CouldNotCloseStray ElementClickInterceptedException)])"

fun process_bids_for_status_rows ::
  "string \<Rightarrow> table_row list \<Rightarrow> jdict list \<Rightarrow> jdict list \<times> action list" where
  "process_bids_for_status_rows status [] all_bids_list = (all_bids_list, [])"
| "process_bids_for_status_rows status (r # rs) all_bids_list =
     (case process_bids_for_status_row status r all_bids_list of
        (res, bids1, ev1) \<Rightarrow>
          (case process_bids_for_status_rows status rs bids1 of
             (bids2, ev2) \<Rightarrow>
               (bids2,
                ev1 @
                (case res of
                   Inl e \<Rightarrow> Print (ErrorProcessingRow e) # close_stray_modal r
                 | Inr u \<Rightarrow> []) @
                ev2)))"

section \<open>Notions for the properties of a run\<close>

text \<open>
  The key under which a row is deduplicated is \<open>str(bid_id)\<close>. A row is settled
  against a set of processed ids when \<open>process_bid_row\<close> will not get as far as the
  append: it is too short, its key is in the set, or its details cannot be opened.
  \<open>good_store\<close>: no file yet, or a sheet whose second column is \<open>Bid ID\<close>, where the
  scraper's records have it. \<open>reads_back\<close>: the file gives the Bid ID of the row back
  as the string the row is keyed by. \<open>in_step\<close>: no write will be refused, and the
  set in memory is the set the file would be loaded to.
\<close>

definition row_key :: "row \<Rightarrow> string" where
  "row_key r = py_str (of_attr (title (cells r ! 0)))"

definition settled :: "row \<Rightarrow> string set \<Rightarrow> bool" where
  "settled r seen =
     (length (cells r) < 7 \<or> row_key r \<in> seen \<or> \<not> anchor (cells r ! 2) \<or> detail r = None)"

definition good_store :: "xlsx option \<Rightarrow> bool" where
  "good_store f =
     (case f of
        None \<Rightarrow> True
      | Some Unreadable \<Rightarrow> False
      | Some (Sheet hdr recs) \<Rightarrow>
          (case hdr of
             c0 # c1 # cs \<Rightarrow> c0 \<noteq> ''Bid ID'' \<and> c1 = ''Bid ID''
           | _ \<Rightarrow> False))"

fun is_saved :: "event \<Rightarrow> bool" where
  "is_saved (Log l (Saved v)) = True"
| "is_saved e = False"

definition reads_back :: "(pyval \<Rightarrow> string) \<Rightarrow> row \<Rightarrow> bool" where
  "reads_back rd r = (rd (of_attr (title (cells r ! 0))) = row_key r)"

definition in_step :: "(pyval \<Rightarrow> string) \<Rightarrow> state \<Rightarrow> bool" where
  "in_step rd st =
     (wfaults (fst st) = [] \<and> good_store (xlsx_file (fst st))
      \<and> fst (load_processed_bid_ids rd (fst st)) = snd st)"

text \<open>The state and the events of \<open>scrape_bids_from_table\<close>, by name.\<close>

definition table_state :: "(pydict \<Rightarrow> string) \<Rightarrow> string \<Rightarrow> page list \<Rightarrow> state \<Rightarrow> state" where
  "table_state ds c pages st = fst (snd (snd (scrape_bids_from_table ds c pages st)))"

definition table_events :: "(pydict \<Rightarrow> string) \<Rightarrow> string \<Rightarrow> page list \<Rightarrow> state \<Rightarrow> event list" where
  "table_events ds c pages st = snd (snd (snd (scrape_bids_from_table ds c pages st)))"

text \<open>
  The details of a row cannot be opened: the title cell has no link, or the modal does
  not appear within the wait.
\<close>

definition cannot_open :: "row \<Rightarrow> bool" where
  "cannot_open r = (\<not> anchor (cells r ! 2) \<or> detail r = None)"

text \<open>
  The rows a page loop reaches, in the order it reaches them: the rows of the page on
  display, and those of the pages after it for as long as the pagination control lets
  it go on. The list is a matter of the pages alone. \<open>walk_categories\<close> runs the row
  loop over these rows, category after category in the order given.
\<close>

fun walked_rows :: "page list \<Rightarrow> row list" where
  "walked_rows [] = []"
| "walked_rows (p # ps) =
     (if page_rows p = [] then []
      else page_rows p @ (if fst (navigate_to_next_page (p # ps)) then walked_rows ps else []))"

fun walk_categories ::
  "(pydict \<Rightarrow> string) \<Rightarrow> (string \<Rightarrow> page list option) \<Rightarrow> (string \<times> string) list \<Rightarrow> state
     \<Rightarrow> state" where
  "walk_categories ds site [] st = st"
| "walk_categories ds site (c # cs) st =
     walk_categories ds site cs
       (case site (snd c) of
          None \<Rightarrow> st
        | Some pages \<Rightarrow> fst (scrape_rows ds (fst c) (walked_rows pages) st))"

text \<open>
  The rows a run over a site reaches, through the three categories. A row opens in a
  run over a site when the run reaches a well-formed row with its key whose details can
  be opened.
\<close>

definition run_rows :: "(string \<Rightarrow> page list option) \<Rightarrow> row list" where
  "run_rows site =
     concat (map (\<lambda>c. case site (snd c) of
                          None \<Rightarrow> []
                        | Some pages \<Rightarrow> walked_rows pages) categories)"

definition opens_in :: "(string \<Rightarrow> page list option) \<Rightarrow> row \<Rightarrow> bool" where
  "opens_in site r =
     (\<exists>r1 \<in> set (run_rows site).
        7 \<le> length (cells r1) \<and> \<not> cannot_open r1 \<and> row_key r1 = row_key r)"

section \<open>Example inputs\<close>

text \<open>
  A grid row of seven cells: the Bid ID sits in the \<open>title\<close> attribute of the first cell,
  the link to the details in the third.
\<close>

definition plain_cell :: "string \<Rightarrow> cell" where
  "plain_cell t = \<lparr>title = None, cell_text = t, anchor = False\<rparr>"

definition grid_row :: "string option \<Rightarrow> bool \<Rightarrow> modal option \<Rightarrow> row" where
  "grid_row bid_id has_link dt =
     \<lparr>cells =
        [\<lparr>title = bid_id, cell_text = '''', anchor = False\<rparr>,
         plain_cell ''C-17'',
         \<lparr>title = None, cell_text = ''Road salt'', anchor = has_link\<rparr>,
         plain_cell ''01/02/2025'',
         plain_cell ''02/03/2025'',
         plain_cell ''DOT'',
         plain_cell ''7210''],
      detail = dt\<rparr>"

definition plain_modal :: modal where
  "plain_modal =
     \<lparr>contact_email = Some ''bids@delaware.gov'', ad_date = Some ''01/02/2025'',
      response_deadline = None, important_message = None, doc_links = []\<rparr>"

text \<open>A row of the second scraper's table, and its pop-up.\<close>

definition plain_popup :: popup where
  "plain_popup =
     \<lparr>p_header = Some ''Road salt'', p_solicitation = Some ''01/02/2025'',
      p_deadline = Some ''02/03/2025'', p_contact_name = Some ''J. Doe'',
      p_contact_email = Some ''bids@delaware.gov'', p_document_links = []\<rparr>"

definition status_row :: "string list \<Rightarrow> bool \<Rightarrow> bool option \<Rightarrow> table_row" where
  "status_row cs ok cb = \<lparr>cols = cs, click_ok = ok, details_popup = plain_popup, close_btn = cb\<rparr>"

text \<open>
  A site with one tab that opens: \<open>Open\<close>, with the given pages. The other two tabs
  never become clickable.
\<close>

definition open_only :: "page list \<Rightarrow> string \<Rightarrow> page list option" where
  "open_only pages tab = (if tab = ''btnOpen'' then Some pages else None)"

text \<open>Two pages under \<open>Open\<close>: \<open>A1\<close> and \<open>A2\<close> on the first, \<open>A3\<close> on the second.\<close>

definition two_pages :: "page list" where
  "two_pages =
     [\<lparr>page_rows = [grid_row (Some ''A1'') True (Some plain_modal),
                    grid_row (Some ''A2'') True (Some plain_modal)],
       next_btn = Button (Some ''ui-pg-button'')\<rparr>,
      \<lparr>page_rows = [grid_row (Some ''A3'') True (Some plain_modal)],
       next_btn = Button (Some ''ui-pg-button ui-state-disabled'')\<rparr>]"

text \<open>A single page with one row and no pagination control.\<close>

definition one_page :: "row \<Rightarrow> page list" where
  "one_page r = [\<lparr>page_rows = [r], next_btn = NoButton\<rparr>]"

definition six_cols :: "string list" where
  "six_cols = [''C-17'', ''Road salt'', ''01/02/2025'', ''02/03/2025'', ''DOT'', ''7210'']"

section \<open>Dictionaries\<close>

lemma dict_set_fresh: "k \<notin> fst ` set d \<Longrightarrow> dict_set k v d = d @ [(k, v)]"
  by (induction d) auto

lemma merged_record:
  "dict_merge (bid_summary c cs) (fst (extract_modal_data ds m))
     = bid_summary c cs @ fst (extract_modal_data ds m)"
  by (simp add: dict_merge_def bid_summary_def extract_modal_data_def split: prod.splits)

text \<open>
  C9. The keys of the row summary and the keys of the modal data are disjoint, whatever
  the row and the modal hold. So the record \<open>{**bid_summary, **modal_data}\<close> that
  \<open>process_bid_row\<close> saves has the union of both key sets as its keys, each once, and
  is the summary followed by the modal data: the merge overwrites no entry.
\<close>

theorem C9_merge_is_disjoint_union:
  "set (map fst (bid_summary c cs)) \<inter> set (map fst (fst (extract_modal_data ds m))) = {}
   \<and> set (map fst (dict_merge (bid_summary c cs) (fst (extract_modal_data ds m)))) =
       set (map fst (bid_summary c cs)) \<union> set (map fst (fst (extract_modal_data ds m)))
   \<and> distinct (map fst (dict_merge (bid_summary c cs) (fst (extract_modal_data ds m))))
   \<and> dict_merge (bid_summary c cs) (fst (extract_modal_data ds m)) =
       bid_summary c cs @ fst (extract_modal_data ds m)"
proof -
  have keys_s: "map fst (bid_summary c cs) =
      [''Category'', ''Bid ID'', ''Contract Number'', ''Title'', ''Open Date'', ''Deadline'',
       ''Agency'', ''UNSPSC'']"
    by (simp add: bid_summary_def)
  have keys_m: "map fst (fst (extract_modal_data ds m)) =
      [''Contact Email'', ''Solicitation Ad Date'', ''Deadline for Bid Responses'',
       ''Important Message'', ''Documents'']"
    by (simp add: extract_modal_data_def split: prod.splits)
  have disj: "set (map fst (bid_summary c cs)) \<inter> set (map fst (fst (extract_modal_data ds m))) = {}"
    unfolding keys_s keys_m by simp
  have dist: "distinct (map fst (bid_summary c cs) @ map fst (fst (extract_modal_data ds m)))"
    unfolding keys_s keys_m by simp
  show ?thesis
    using disj dist by (simp add: merged_record)
qed

section \<open>Rows that are skipped\<close>

text \<open>
  C4. A row of at least seven cells whose Bid ID, as a string, is already in
  \<open>processed_bid_ids\<close>: \<open>process_bid_row\<close> returns with the file, the fault schedule
  and the set as they were, and its only event is the log line of the skip: no click on
  the title link, no wait for the modal, no write. The row loop then goes on with the
  next row from the same state.
\<close>

theorem C4_seen_row_is_skipped:
  assumes "7 \<le> length (cells r)"
    and "py_str (of_attr (title (cells r ! 0))) \<in> seen"
  shows "process_bid_row ds r c (d, seen) =
           (Inr (), (d, seen), [Log INFO (Skipping (of_attr (title (cells r ! 0))))])
         \<and> scrape_rows ds c (r # rs) (d, seen) =
           (fst (scrape_rows ds c rs (d, seen)),
            Log INFO (Skipping (of_attr (title (cells r ! 0)))) # snd (scrape_rows ds c rs (d, seen)))"
proof -
  have one: "process_bid_row ds r c (d, seen) =
      (Inr (), (d, seen), [Log INFO (Skipping (of_attr (title (cells r ! 0))))])"
    using assms by (simp add: process_bid_row_def Let_def)
  show ?thesis
    by (simp add: one split: prod.splits)
qed

theorem C4_seen_row_is_skipped_witness:
  "7 \<le> length (cells (grid_row (Some ''A1'') True (Some plain_modal)))
   \<and> py_str (of_attr (title (cells (grid_row (Some ''A1'') True (Some plain_modal)) ! 0))) \<in> {''A1''}
   \<and> process_bid_row (\<lambda>d. ''{}'') (grid_row (Some ''A1'') True (Some plain_modal)) ''Open''
        (\<lparr>xlsx_file = None, wfaults = []\<rparr>, {''A1''}) =
      (Inr (), (\<lparr>xlsx_file = None, wfaults = []\<rparr>, {''A1''}), [Log INFO (Skipping (PStr ''A1''))])
   \<and> scrape_rows (\<lambda>d. ''{}'') ''Open'' [grid_row (Some ''A1'') True (Some plain_modal)]
        (\<lparr>xlsx_file = None, wfaults = []\<rparr>, {''A1''}) =
      ((\<lparr>xlsx_file = None, wfaults = []\<rparr>, {''A1''}), [Log INFO (Skipping (PStr ''A1''))])"
proof -
  have len: "7 \<le> length (cells (grid_row (Some ''A1'') True (Some plain_modal)))"
    by (simp add: grid_row_def)
  have mem: "py_str (of_attr (title (cells (grid_row (Some ''A1'') True (Some plain_modal)) ! 0))) \<in> {''A1''}"
    by (simp add: grid_row_def)
  show ?thesis
    using len mem
      C4_seen_row_is_skipped [OF len mem, of "\<lambda>d. ''{}''" "''Open''" "\<lparr>xlsx_file = None, wfaults = []\<rparr>" "[]"]
    by (simp add: grid_row_def)
qed

text \<open>
  C5. A row with fewer cells than the scraper reads (seven in \<open>scraper.py\<close>, six in
  \<open>end.py\<close>) is skipped without a trace: the function returns normally, the state
  (file, fault schedule, processed ids, collected records) is what it was, and no event
  is emitted, so no click, no record, no id marked, no log line and no error. The row
  loop behaves as if the row were not on the page.
\<close>

theorem C5_short_row_is_skipped_silently:
  "(length (cells r) < 7 \<longrightarrow>
      process_bid_row ds r c st = (Inr (), st, [])
      \<and> scrape_rows ds c (r # rs) st = scrape_rows ds c rs st)
   \<and> (length (cols tr) < 6 \<longrightarrow>
      process_bids_for_status_row status tr bids = (Inr (), bids, [])
      \<and> process_bids_for_status_rows status (tr # trs) bids =
        process_bids_for_status_rows status trs bids)"
  by (simp add: process_bid_row_def process_bids_for_status_row_def Let_def split: prod.splits)

theorem C5_short_row_is_skipped_silently_witness:
  "length (cells \<lparr>cells = [plain_cell ''Total'', plain_cell ''3''], detail = Some plain_modal\<rparr>) < 7
   \<and> process_bid_row (\<lambda>d. ''{}'') \<lparr>cells = [plain_cell ''Total'', plain_cell ''3''], detail = Some plain_modal\<rparr>
        ''Open'' (\<lparr>xlsx_file = None, wfaults = []\<rparr>, {}) =
      (Inr (), (\<lparr>xlsx_file = None, wfaults = []\<rparr>, {}), [])
   \<and> scrape_rows (\<lambda>d. ''{}'') ''Open''
        [\<lparr>cells = [plain_cell ''Total'', plain_cell ''3''], detail = Some plain_modal\<rparr>]
        (\<lparr>xlsx_file = None, wfaults = []\<rparr>, {}) =
      ((\<lparr>xlsx_file = None, wfaults = []\<rparr>, {}), [])
   \<and> length (cols (status_row [''Total'', ''3''] True None)) < 6
   \<and> process_bids_for_status_row ''Open'' (status_row [''Total'', ''3''] True None) [] = (Inr (), [], [])
   \<and> process_bids_for_status_rows ''Open'' [status_row [''Total'', ''3''] True None] [] = ([], [])"
  using C5_short_row_is_skipped_silently
    [of "\<lparr>cells = [plain_cell ''Total'', plain_cell ''3''], detail = Some plain_modal\<rparr>"
        "\<lambda>d. ''{}''" "''Open''" "(\<lparr>xlsx_file = None, wfaults = []\<rparr>, {})" "[]"
        "status_row [''Total'', ''3''] True None" "''Open''" "[]" "[]"]
  by (simp add: status_row_def)

section \<open>The file: loading the processed ids, appending a record\<close>

text \<open>
  C8. \<open>load_processed_bid_ids\<close> has a result for every state of the file, and never
  raises. No file: the empty set, with the INFO line of a fresh start. A file that
  cannot be read: the empty set, and the failure is logged at level ERROR (not as a
  warning). A sheet without a \<open>Bid ID\<close> column: the empty set, with a WARNING. A sheet
  with the column: exactly the set of the strings \<open>astype(str)\<close> gives for the
  \<open>Bid ID\<close> cells of the stored records, and the INFO line counting them.
\<close>

theorem C8_load_processed_bid_ids_cases:
  "(xlsx_file d = None \<longrightarrow>
      load_processed_bid_ids rd d = ({}, [Log INFO NoExistingFile]))
   \<and> (xlsx_file d = Some Unreadable \<longrightarrow>
      load_processed_bid_ids rd d = ({}, [Log ERROR (ReadError InvalidFileException)]))
   \<and> (xlsx_file d = Some (Sheet hdr recs) \<and> ''Bid ID'' \<notin> set hdr \<longrightarrow>
      load_processed_bid_ids rd d = ({}, [Log WARNING NoBidIdColumn]))
   \<and> (xlsx_file d = Some (Sheet hdr recs) \<and> ''Bid ID'' \<in> set hdr \<longrightarrow>
      load_processed_bid_ids rd d =
        ((\<lambda>r. rd (column_value hdr r ''Bid ID'')) ` set recs,
         [Log INFO (LoadedIds (card ((\<lambda>r. rd (column_value hdr r ''Bid ID'')) ` set recs)))]))
   \<and> (xlsx_file d = None \<or> xlsx_file d = Some Unreadable
        \<or> (\<exists>hdr recs. xlsx_file d = Some (Sheet hdr recs)))"
proof -
  have total: "xlsx_file d = None \<or> xlsx_file d = Some Unreadable
      \<or> (\<exists>hdr recs. xlsx_file d = Some (Sheet hdr recs))"
  proof (cases "xlsx_file d")
    case None
    then show ?thesis by simp
  next
    case (Some x)
    then show ?thesis by (cases x) simp_all
  qed
  have card: "length (remdups (map (\<lambda>r. rd (column_value hdr r ''Bid ID'')) recs)) =
      card ((\<lambda>r. rd (column_value hdr r ''Bid ID'')) ` set recs)"
    by (simp add: length_remdups_card_conv)
  show ?thesis
    using total by (auto simp: load_processed_bid_ids_def Let_def card)
qed

theorem C8_load_processed_bid_ids_cases_witness:
  "load_processed_bid_ids pandas_astype_str \<lparr>xlsx_file = None, wfaults = []\<rparr> =
     ({}, [Log INFO NoExistingFile])
   \<and> load_processed_bid_ids pandas_astype_str \<lparr>xlsx_file = Some Unreadable, wfaults = []\<rparr> =
     ({}, [Log ERROR (ReadError InvalidFileException)])
   \<and> load_processed_bid_ids pandas_astype_str
       \<lparr>xlsx_file = Some (Sheet [''Notes''] [[PStr ''x'']]), wfaults = []\<rparr> =
     ({}, [Log WARNING NoBidIdColumn])
   \<and> load_processed_bid_ids pandas_astype_str
       \<lparr>xlsx_file = Some (Sheet [''Category'', ''Bid ID'']
          [[PStr ''Open'', PStr ''A1''], [PStr ''Open'', PStr ''A2'']]), wfaults = []\<rparr> =
     ({''A1'', ''A2''}, [Log INFO (LoadedIds 2)])"
  using
    C8_load_processed_bid_ids_cases [of "\<lparr>xlsx_file = None, wfaults = []\<rparr>" pandas_astype_str]
    C8_load_processed_bid_ids_cases [of "\<lparr>xlsx_file = Some Unreadable, wfaults = []\<rparr>" pandas_astype_str]
    C8_load_processed_bid_ids_cases
      [of "\<lparr>xlsx_file = Some (Sheet [''Notes''] [[PStr ''x'']]), wfaults = []\<rparr>" pandas_astype_str
          "[''Notes'']" "[[PStr ''x'']]"]
    C8_load_processed_bid_ids_cases
      [of "\<lparr>xlsx_file = Some (Sheet [''Category'', ''Bid ID'']
            [[PStr ''Open'', PStr ''A1''], [PStr ''Open'', PStr ''A2'']]), wfaults = []\<rparr>" pandas_astype_str
          "[''Category'', ''Bid ID'']" "[[PStr ''Open'', PStr ''A1''], [PStr ''Open'', PStr ''A2'']]"]
  by (simp add: column_value_def)

text \<open>
  C8, as first stated, has the unreadable file logged as a warning. The one line logged
  for such a file is at level ERROR.
\<close>

theorem C8_unreadable_file_logs_error:
  "load_processed_bid_ids pandas_astype_str \<lparr>xlsx_file = Some Unreadable, wfaults = []\<rparr> =
     ({}, [Log ERROR (ReadError InvalidFileException)])"
  by (simp add: load_processed_bid_ids_def)

text \<open>
  An append to a file that exists returns normally whatever happens, and a write that
  is refused leaves the file as it was.
\<close>

lemma append_to_existing_file_returns:
  "xlsx_file d \<noteq> None \<Longrightarrow> fst (append_to_excel bid_data d) = Inr ()"
  by (auto simp: append_to_excel_def Let_def split: option.splits io_fault.splits xlsx.splits)

lemma refused_write_keeps_file:
  "next_fault d \<noteq> None \<Longrightarrow> xlsx_file (fst (snd (append_to_excel bid_data d))) = xlsx_file d"
  by (auto simp: append_to_excel_def Let_def split: option.splits io_fault.splits xlsx.splits)

text \<open>
  C6: no failure of an append leaves \<open>append_to_excel\<close>, also where the file has to be
  created. The code misses this on the creation path: \<open>to_excel\<close> for a new file stands
  before the \<open>try\<close>, so with no file on disk a refused write is raised to the caller, for
  every record and either kind of fault, and nothing is logged by the function.
\<close>

theorem C6_creation_fault_escapes:
  "append_to_excel bid_data \<lparr>xlsx_file = None, wfaults = Some f # fs\<rparr> =
     (Inl (fault_exn f), \<lparr>xlsx_file = None, wfaults = fs\<rparr>, [])"
  by (simp add: append_to_excel_def next_fault_def)

text \<open>
  C1: the Bid ID is marked as processed only if the append of its record succeeded. The
  code marks it after every return of \<open>append_to_excel\<close>. Here the file exists and the
  write is refused with a \<open>PermissionError\<close>: the fault is logged, the file keeps its
  rows, and \<open>B1\<close> is in the set all the same, under the log line of a successful save.
\<close>

theorem C1_failed_append_marks_seen:
  "process_bid_row ds (grid_row (Some ''B1'') True (Some plain_modal)) ''Open''
     (\<lparr>xlsx_file = Some (Sheet [''Category'', ''Bid ID''] []), wfaults = [Some Denied]\<rparr>, {}) =
   (Inr (),
    (\<lparr>xlsx_file = Some (Sheet [''Category'', ''Bid ID''] []), wfaults = []\<rparr>, {''B1''}),
    [ClickTitle, WaitModal, SendEscape, Log ERROR PermissionDenied, Log INFO (Saved (PStr ''B1''))])"
  by (simp add: process_bid_row_def grid_row_def plain_modal_def extract_modal_data_def
      append_to_excel_def next_fault_def Let_def)

section \<open>Pagination\<close>

text \<open>Nothing but the page loop itself waits for the grid or reads its rows.\<close>

lemma collect_documents_events:
  "\<forall>e \<in> set (snd (collect_documents ls docs)). \<not> grid_event e"
  by (induction ls docs rule: collect_documents.induct) (auto simp: grid_event_def)

lemma extract_modal_data_events:
  "\<forall>e \<in> set (snd (extract_modal_data ds m)). \<not> grid_event e"
  using collect_documents_events [of "doc_links m" "[]"]
  by (auto simp: extract_modal_data_def split: prod.splits)

lemma append_to_excel_events:
  "\<forall>e \<in> set (snd (snd (append_to_excel bid_data d))). \<not> grid_event e"
  by (auto simp: append_to_excel_def Let_def grid_event_def
      split: option.splits io_fault.splits xlsx.splits)

lemma process_bid_row_events:
  "\<forall>e \<in> set (snd (snd (process_bid_row ds r c st))). \<not> grid_event e"
proof (cases "detail r")
  case None
  then show ?thesis
    by (auto simp: process_bid_row_def Let_def grid_event_def split: if_splits)
next
  case (Some m)
  obtain md evs where md: "extract_modal_data ds m = (md, evs)"
    by (cases "extract_modal_data ds m")
  obtain res d' evs' where ap:
    "append_to_excel (dict_merge (bid_summary c (cells r)) md) (fst st) = (res, d', evs')"
    by (cases "append_to_excel (dict_merge (bid_summary c (cells r)) md) (fst st)")
  have a: "\<forall>x \<in> set evs. \<not> grid_event x"
    using extract_modal_data_events [of ds m] md by simp
  have b: "\<forall>x \<in> set evs'. \<not> grid_event x"
    using append_to_excel_events [of "dict_merge (bid_summary c (cells r)) md" "fst st"] ap by simp
  from Some md ap a b show ?thesis
    by (cases res) (auto simp: process_bid_row_def Let_def grid_event_def split: if_splits)
qed

lemma scrape_rows_events:
  "\<forall>e \<in> set (snd (scrape_rows ds c rs st)). \<not> grid_event e"
proof (induction rs arbitrary: st)
  case Nil
  then show ?case by simp
next
  case (Cons r rs)
  obtain res st1 ev1 where p: "process_bid_row ds r c st = (res, st1, ev1)"
    by (cases "process_bid_row ds r c st")
  obtain st2 ev2 where q: "scrape_rows ds c rs st1 = (st2, ev2)"
    by (cases "scrape_rows ds c rs st1")
  have a: "\<forall>x \<in> set ev1. \<not> grid_event x"
    using process_bid_row_events [of ds r c st] p by simp
  have b: "\<forall>x \<in> set ev2. \<not> grid_event x"
    using Cons.IH [of st1] q by simp
  from p q a b show ?case
    by (cases res) (auto simp: grid_event_def)
qed

lemma navigate_to_next_page_events:
  "\<forall>e \<in> set (snd (snd (navigate_to_next_page pages))). \<not> grid_event e"
  by (auto simp: navigate_to_next_page_def grid_event_def
      split: list.splits next_button.splits option.splits if_splits)

lemma count_list_no_grid:
  assumes "\<forall>e \<in> set evs. \<not> grid_event e"
  shows "count_list evs WaitRows = 0 \<and> count_list evs FindRows = 0"
proof -
  have "WaitRows \<notin> set evs" "FindRows \<notin> set evs"
    using assms by (auto simp: grid_event_def)
  then show ?thesis by (simp add: count_list_0_iff)
qed

text \<open>
  C7. When the next-page control is absent, or its \<open>class\<close> marks it disabled,
  \<open>navigate_to_next_page\<close> returns \<open>False\<close> as a value (it has no exceptional
  result: a missing control is caught inside, and logged) and leaves the pages of the
  grid as they were. And whenever it returns \<open>False\<close> on a page that has rows,
  \<open>scrape_bids_from_table\<close> ends normally in that iteration: its state is the state
  after the rows of this one page, it has waited for the grid once and read the rows
  once, and its last event is the line that no more pages are left.
\<close>

theorem C7_no_next_page_ends_page_loop:
  "((next_btn p = NoButton
      \<or> (\<exists>cl. next_btn p = Button (Some cl)
            \<and> (sublist ''disabled'' cl \<or> sublist ''ui-jqgrid-disablePointerEvents'' cl)))
     \<longrightarrow> fst (navigate_to_next_page (p # ps)) = False
         \<and> fst (snd (navigate_to_next_page (p # ps))) = p # ps)
   \<and> (fst (navigate_to_next_page (p # ps)) = False \<and> page_rows p \<noteq> [] \<longrightarrow>
        fst (scrape_bids_from_table ds c (p # ps) st) = Inr ()
        \<and> fst (snd (snd (scrape_bids_from_table ds c (p # ps) st))) =
            fst (scrape_rows ds c (page_rows p) st)
        \<and> count_list (snd (snd (snd (scrape_bids_from_table ds c (p # ps) st)))) WaitRows = 1
        \<and> count_list (snd (snd (snd (scrape_bids_from_table ds c (p # ps) st)))) FindRows = 1
        \<and> last (snd (snd (snd (scrape_bids_from_table ds c (p # ps) st)))) = Log INFO NoMorePages)"
proof -
  have nav: "(next_btn p = NoButton
      \<or> (\<exists>cl. next_btn p = Button (Some cl)
            \<and> (sublist ''disabled'' cl \<or> sublist ''ui-jqgrid-disablePointerEvents'' cl)))
     \<longrightarrow> fst (navigate_to_next_page (p # ps)) = False
         \<and> fst (snd (navigate_to_next_page (p # ps))) = p # ps"
    by (auto simp: navigate_to_next_page_def)
  have loop: "fst (scrape_bids_from_table ds c (p # ps) st) = Inr ()
        \<and> fst (snd (snd (scrape_bids_from_table ds c (p # ps) st))) =
            fst (scrape_rows ds c (page_rows p) st)
        \<and> count_list (snd (snd (snd (scrape_bids_from_table ds c (p # ps) st)))) WaitRows = 1
        \<and> count_list (snd (snd (snd (scrape_bids_from_table ds c (p # ps) st)))) FindRows = 1
        \<and> last (snd (snd (snd (scrape_bids_from_table ds c (p # ps) st)))) = Log INFO NoMorePages"
    if stop: "fst (navigate_to_next_page (p # ps)) = False" and rows: "page_rows p \<noteq> []"
  proof -
    obtain st1 ev1 where r: "scrape_rows ds c (page_rows p) st = (st1, ev1)"
      by (cases "scrape_rows ds c (page_rows p) st")
    obtain pages1 ev2 where n: "navigate_to_next_page (p # ps) = (False, pages1, ev2)"
      using stop by (cases "navigate_to_next_page (p # ps)") auto
    have c1: "count_list ev1 WaitRows = 0 \<and> count_list ev1 FindRows = 0"
      using scrape_rows_events [of ds c "page_rows p" st] r
      by (intro count_list_no_grid) simp
    have c2: "count_list ev2 WaitRows = 0 \<and> count_list ev2 FindRows = 0"
      using navigate_to_next_page_events [of "p # ps"] n
      by (intro count_list_no_grid) simp
    have eq: "scrape_bids_from_table ds c (p # ps) st =
        (Inr (), pages1, st1, [WaitRows, FindRows] @ ev1 @ ev2 @ [Log INFO NoMorePages])"
      using rows r n by (subst scrape_bids_from_table.simps) simp
    show ?thesis
      unfolding eq using c1 c2 r by simp
  qed
  show ?thesis
    using nav loop by blast
qed

theorem C7_no_next_page_ends_page_loop_witness:
  "(next_btn \<lparr>page_rows = [grid_row (Some ''A3'') True None], next_btn = Button (Some ''ui-state-disabled'')\<rparr> = NoButton
      \<or> (\<exists>cl. next_btn \<lparr>page_rows = [grid_row (Some ''A3'') True None], next_btn = Button (Some ''ui-state-disabled'')\<rparr> = Button (Some cl)
            \<and> (sublist ''disabled'' cl \<or> sublist ''ui-jqgrid-disablePointerEvents'' cl)))
   \<and> page_rows \<lparr>page_rows = [grid_row (Some ''A3'') True None], next_btn = Button (Some ''ui-state-disabled'')\<rparr> \<noteq> []
   \<and> navigate_to_next_page
        [\<lparr>page_rows = [grid_row (Some ''A3'') True None], next_btn = Button (Some ''ui-state-disabled'')\<rparr>] =
      (False, [\<lparr>page_rows = [grid_row (Some ''A3'') True None], next_btn = Button (Some ''ui-state-disabled'')\<rparr>], [])
   \<and> fst (scrape_bids_from_table (\<lambda>d. ''{}'') ''Open''
        [\<lparr>page_rows = [grid_row (Some ''A3'') True None], next_btn = Button (Some ''ui-state-disabled'')\<rparr>]
        (\<lparr>xlsx_file = None, wfaults = []\<rparr>, {})) = Inr ()
   \<and> count_list (snd (snd (snd (scrape_bids_from_table (\<lambda>d. ''{}'') ''Open''
        [\<lparr>page_rows = [grid_row (Some ''A3'') True None], next_btn = Button (Some ''ui-state-disabled'')\<rparr>]
        (\<lparr>xlsx_file = None, wfaults = []\<rparr>, {}))))) FindRows = 1"
proof -
  have dis: "sublist ''disabled'' ''ui-state-disabled''"
    by (simp add: sublist_Cons_right)
  have nav: "navigate_to_next_page
        [\<lparr>page_rows = [grid_row (Some ''A3'') True None], next_btn = Button (Some ''ui-state-disabled'')\<rparr>] =
      (False, [\<lparr>page_rows = [grid_row (Some ''A3'') True None], next_btn = Button (Some ''ui-state-disabled'')\<rparr>], [])"
    using dis by (simp add: navigate_to_next_page_def)
  show ?thesis
    using dis nav
      C7_no_next_page_ends_page_loop
        [of "\<lparr>page_rows = [grid_row (Some ''A3'') True None], next_btn = Button (Some ''ui-state-disabled'')\<rparr>"
            "[]" "\<lambda>d. ''{}''" "''Open''" "(\<lparr>xlsx_file = None, wfaults = []\<rparr>, {})"]
    by simp
qed

section \<open>A second run over the same site\<close>

lemma settled_mono: "settled r S \<Longrightarrow> S \<subseteq> S' \<Longrightarrow> settled r S'"
  by (auto simp: settled_def)

lemma collect_documents_not_saved: "filter is_saved (snd (collect_documents ls docs)) = []"
  by (induction ls docs rule: collect_documents.induct) auto

lemma extract_modal_data_not_saved: "filter is_saved (snd (extract_modal_data ds m)) = []"
  using collect_documents_not_saved [of "doc_links m" "[]"]
  by (auto simp: extract_modal_data_def split: prod.splits)

lemma settled_row_untouched:
  assumes "settled r S"
  shows "fst (snd (process_bid_row ds r c (d, S))) = (d, S)
         \<and> filter is_saved (snd (snd (process_bid_row ds r c (d, S)))) = []"
  using assms
  by (auto simp: settled_def row_key_def process_bid_row_def Let_def)

lemma append_creates:
  "xlsx_file d = None \<Longrightarrow> wfaults d = [] \<Longrightarrow>
   append_to_excel bid_data d =
     (Inr (), \<lparr>xlsx_file = Some (Sheet (map fst bid_data) [map snd bid_data]), wfaults = []\<rparr>,
      [Log INFO CreatedFile])"
  by (simp add: append_to_excel_def next_fault_def Let_def)

lemma append_extends:
  "xlsx_file d = Some (Sheet hdr recs) \<Longrightarrow> wfaults d = [] \<Longrightarrow>
   append_to_excel bid_data d =
     (Inr (), \<lparr>xlsx_file = Some (Sheet hdr (recs @ [map snd bid_data])), wfaults = []\<rparr>, [])"
  by (simp add: append_to_excel_def next_fault_def Let_def)

lemma saved_bid_id_cell:
  "c0 \<noteq> ''Bid ID'' \<Longrightarrow>
   column_value (c0 # ''Bid ID'' # cs)
     (map snd (bid_summary c (cells r) @ fst (extract_modal_data ds m))) ''Bid ID''
   = of_attr (title (cells r ! 0))"
  by (simp add: column_value_def bid_summary_def)

lemma new_header:
  "map fst (bid_summary c cs @ fst (extract_modal_data ds m)) =
     ''Category'' # ''Bid ID'' #
     [''Contract Number'', ''Title'', ''Open Date'', ''Deadline'', ''Agency'', ''UNSPSC'',
      ''Contact Email'', ''Solicitation Ad Date'', ''Deadline for Bid Responses'',
      ''Important Message'', ''Documents'']"
  by (simp add: bid_summary_def extract_modal_data_def split: prod.splits)

lemma unsettled_row_result:
  assumes "\<not> settled r S" and "detail r = Some m"
  shows "process_bid_row ds r c (d, S) =
     (case append_to_excel (bid_summary c (cells r) @ fst (extract_modal_data ds m)) d of
        (Inl e, d', evs') \<Rightarrow>
          (Inl e, (d', S),
           [ClickTitle, WaitModal] @ snd (extract_modal_data ds m) @ [SendEscape] @ evs')
      | (Inr u, d', evs') \<Rightarrow>
          (Inr (), (d', insert (row_key r) S),
           [ClickTitle, WaitModal] @ snd (extract_modal_data ds m) @ [SendEscape] @ evs' @
           [Log INFO (Saved (of_attr (title (cells r ! 0))))]))"
proof -
  obtain md evs where md: "extract_modal_data ds m = (md, evs)"
    by (cases "extract_modal_data ds m")
  have mr: "dict_merge (bid_summary c (cells r)) md = bid_summary c (cells r) @ md"
    using merged_record [of c "cells r" ds m] md by simp
  show ?thesis
    using assms md mr
    by (auto simp: settled_def row_key_def process_bid_row_def Let_def split: prod.splits sum.splits)
qed

lemma first_pass_row:
  assumes inv: "in_step rd st"
    and rb: "7 \<le> length (cells r) \<longrightarrow> reads_back rd r"
  shows "in_step rd (fst (snd (process_bid_row ds r c st)))
         \<and> snd st \<subseteq> snd (fst (snd (process_bid_row ds r c st)))
         \<and> settled r (snd (fst (snd (process_bid_row ds r c st))))"
proof (cases "settled r (snd st)")
  case True
  then have "fst (snd (process_bid_row ds r c st)) = st"
    using settled_row_untouched [of r "snd st" ds c "fst st"] by simp
  with True inv show ?thesis by simp
next
  case False
  then obtain m where m: "detail r = Some m" and len: "7 \<le> length (cells r)"
    by (auto simp: settled_def)
  have key: "rd (of_attr (title (cells r ! 0))) = row_key r"
    using rb len by (simp add: reads_back_def)
  obtain d S where st: "st = (d, S)" by (cases st)
  have nf: "wfaults d = []" and gs: "good_store (xlsx_file d)"
    and ld: "fst (load_processed_bid_ids rd d) = S"
    using inv st by (simp_all add: in_step_def)
  show ?thesis
  proof (cases "xlsx_file d")
    case None
    have S: "S = {}" using ld None by (simp add: load_processed_bid_ids_def)
    show ?thesis
      using False m st None nf S key
      by (simp add: unsettled_row_result [OF _ m] append_creates [OF None nf] in_step_def
          good_store_def bid_summary_def column_value_def load_processed_bid_ids_def settled_def)
  next
    case (Some x)
    then obtain c0 cs recs where x: "x = Sheet (c0 # ''Bid ID'' # cs) recs" and c0: "c0 \<noteq> ''Bid ID''"
      using gs by (auto simp: good_store_def split: xlsx.splits list.splits)
    have sheet: "xlsx_file d = Some (Sheet (c0 # ''Bid ID'' # cs) recs)"
      using Some x by simp
    have S: "S = (\<lambda>r. rd (column_value (c0 # ''Bid ID'' # cs) r ''Bid ID'')) ` set recs"
      using ld sheet by (simp add: load_processed_bid_ids_def Let_def)
    show ?thesis
      using False m st nf S key c0
      by (auto simp: unsettled_row_result [OF _ m] append_extends [OF sheet nf] in_step_def
          good_store_def bid_summary_def column_value_def load_processed_bid_ids_def settled_def
          Let_def)
  qed
qed

lemma first_pass_rows:
  assumes "in_step rd st"
    and "\<forall>r \<in> set rs. 7 \<le> length (cells r) \<longrightarrow> reads_back rd r"
  shows "in_step rd (fst (scrape_rows ds c rs st))
         \<and> snd st \<subseteq> snd (fst (scrape_rows ds c rs st))
         \<and> (\<forall>r \<in> set rs. settled r (snd (fst (scrape_rows ds c rs st))))"
  using assms
proof (induction rs arbitrary: st)
  case Nil
  then show ?case by simp
next
  case (Cons r rs)
  obtain res st1 ev1 where p: "process_bid_row ds r c st = (res, st1, ev1)"
    by (cases "process_bid_row ds r c st")
  have one: "in_step rd st1 \<and> snd st \<subseteq> snd st1 \<and> settled r (snd st1)"
    using first_pass_row [of rd st r ds c] Cons.prems p by simp
  have rest: "in_step rd (fst (scrape_rows ds c rs st1))
         \<and> snd st1 \<subseteq> snd (fst (scrape_rows ds c rs st1))
         \<and> (\<forall>r \<in> set rs. settled r (snd (fst (scrape_rows ds c rs st1))))"
    using Cons.IH [of st1] one Cons.prems by simp
  have "settled r (snd (fst (scrape_rows ds c rs st1)))"
    using one rest settled_mono by blast
  then show ?case
    using p one rest by (auto split: prod.splits)
qed

lemma second_pass_rows:
  assumes "\<forall>r \<in> set rs. settled r S"
  shows "fst (scrape_rows ds c rs (d, S)) = (d, S)
         \<and> filter is_saved (snd (scrape_rows ds c rs (d, S))) = []"
  using assms
proof (induction rs)
  case Nil
  then show ?case by simp
next
  case (Cons r rs)
  obtain res ev1 where p: "process_bid_row ds r c (d, S) = (res, (d, S), ev1)"
    and q: "filter is_saved ev1 = []"
    using settled_row_untouched [of r S ds c d] Cons.prems
    by (cases "process_bid_row ds r c (d, S)") auto
  show ?case
    using Cons p q by (cases res) (auto split: prod.splits)
qed

lemma navigate_click:
  "fst (navigate_to_next_page pages) \<Longrightarrow>
     pages \<noteq> [] \<and> navigate_to_next_page pages = (True, tl pages, [ClickNext])"
  by (auto simp: navigate_to_next_page_def
      split: list.splits next_button.splits option.splits if_splits)

lemma navigate_not_saved: "filter is_saved (snd (snd (navigate_to_next_page pages))) = []"
  by (auto simp: navigate_to_next_page_def
      split: list.splits next_button.splits option.splits if_splits)

lemma scrape_bids_from_table_unfold:
  "scrape_bids_from_table ds c pages st =
     (if pages = [] \<or> page_rows (hd pages) = []
      then (Inl TimeoutException, pages, st, [WaitRows])
      else if fst (navigate_to_next_page pages)
      then
        (fst (scrape_bids_from_table ds c (fst (snd (navigate_to_next_page pages)))
                (fst (scrape_rows ds c (page_rows (hd pages)) st))),
         fst (snd (scrape_bids_from_table ds c (fst (snd (navigate_to_next_page pages)))
                (fst (scrape_rows ds c (page_rows (hd pages)) st)))),
         fst (snd (snd (scrape_bids_from_table ds c (fst (snd (navigate_to_next_page pages)))
                (fst (scrape_rows ds c (page_rows (hd pages)) st))))),
         [WaitRows, FindRows] @ snd (scrape_rows ds c (page_rows (hd pages)) st) @
         snd (snd (navigate_to_next_page pages)) @
         snd (snd (snd (scrape_bids_from_table ds c (fst (snd (navigate_to_next_page pages)))
                (fst (scrape_rows ds c (page_rows (hd pages)) st))))))
      else
        (Inr (), fst (snd (navigate_to_next_page pages)),
         fst (scrape_rows ds c (page_rows (hd pages)) st),
         [WaitRows, FindRows] @ snd (scrape_rows ds c (page_rows (hd pages)) st) @
         snd (snd (navigate_to_next_page pages)) @ [Log INFO NoMorePages]))"
  by (subst scrape_bids_from_table.simps [of ds c pages st]) (simp split: prod.splits)

lemma table_stop:
  "pages = [] \<or> page_rows (hd pages) = [] \<Longrightarrow>
   table_state ds c pages st = st \<and> table_events ds c pages st = [WaitRows]"
  unfolding table_state_def table_events_def
  by (subst (1 2) scrape_bids_from_table_unfold) simp

lemma table_last:
  assumes "pages \<noteq> []" and "page_rows (hd pages) \<noteq> []" and "\<not> fst (navigate_to_next_page pages)"
  shows "table_state ds c pages st = fst (scrape_rows ds c (page_rows (hd pages)) st)
     \<and> table_events ds c pages st =
        [WaitRows, FindRows] @ snd (scrape_rows ds c (page_rows (hd pages)) st) @
        snd (snd (navigate_to_next_page pages)) @ [Log INFO NoMorePages]"
  unfolding table_state_def table_events_def
  using assms
  by (subst (1 2) scrape_bids_from_table_unfold) simp

lemma table_next:
  assumes "pages \<noteq> []" and "page_rows (hd pages) \<noteq> []" and "fst (navigate_to_next_page pages)"
  shows "table_state ds c pages st =
        table_state ds c (tl pages) (fst (scrape_rows ds c (page_rows (hd pages)) st))
     \<and> table_events ds c pages st =
        [WaitRows, FindRows] @ snd (scrape_rows ds c (page_rows (hd pages)) st) @ [ClickNext] @
        table_events ds c (tl pages) (fst (scrape_rows ds c (page_rows (hd pages)) st))"
proof -
  have n: "navigate_to_next_page pages = (True, tl pages, [ClickNext])"
    using navigate_click assms(3) by blast
  have u: "scrape_bids_from_table ds c pages st =
      (fst (scrape_bids_from_table ds c (tl pages) (fst (scrape_rows ds c (page_rows (hd pages)) st))),
       fst (snd (scrape_bids_from_table ds c (tl pages) (fst (scrape_rows ds c (page_rows (hd pages)) st)))),
       fst (snd (snd (scrape_bids_from_table ds c (tl pages) (fst (scrape_rows ds c (page_rows (hd pages)) st))))),
       [WaitRows, FindRows] @ snd (scrape_rows ds c (page_rows (hd pages)) st) @ [ClickNext] @
       snd (snd (snd (scrape_bids_from_table ds c (tl pages) (fst (scrape_rows ds c (page_rows (hd pages)) st))))))"
    using assms(1,2) n by (subst scrape_bids_from_table_unfold) simp
  show ?thesis
    unfolding table_state_def table_events_def by (subst (1 2) u) simp
qed

lemma category_step_closed:
  assumes "site (snd c) = None"
  shows "fst (process_categories ds site (c # cs) s) = fst (process_categories ds site cs s)
       \<and> filter is_saved (snd (process_categories ds site (c # cs) s)) =
           filter is_saved (snd (process_categories ds site cs s))"
  using assms by (simp split: prod.splits)

lemma category_step_open:
  assumes "site (snd c) = Some pages"
  shows "fst (process_categories ds site (c # cs) s) =
           fst (process_categories ds site cs (table_state ds (fst c) pages s))
       \<and> filter is_saved (snd (process_categories ds site (c # cs) s)) =
           filter is_saved (table_events ds (fst c) pages s) @
           filter is_saved (snd (process_categories ds site cs (table_state ds (fst c) pages s)))"
proof -
  obtain res pages1 st1 evs where t:
    "scrape_bids_from_table ds (fst c) pages s = (res, pages1, st1, evs)"
    by (cases "scrape_bids_from_table ds (fst c) pages s")
  show ?thesis
    using assms t
    by (cases res) (simp_all add: table_state_def table_events_def split: prod.splits)
qed

lemma load_not_saved: "filter is_saved (snd (load_processed_bid_ids rd d)) = []"
  by (auto simp: load_processed_bid_ids_def Let_def split: option.splits xlsx.splits)

lemma main_unfold:
  "main rd ds site d =
     (fst (fst (process_categories ds site categories (d, fst (load_processed_bid_ids rd d)))),
      snd (load_processed_bid_ids rd d) @ [Get BASE_URL, Log INFO (Navigated BASE_URL)] @
      snd (process_categories ds site categories (d, fst (load_processed_bid_ids rd d))) @
      [Quit, Log INFO ScrapingComplete])"
  by (simp add: main_def process_bid_categories_def split: prod.splits)

section \<open>A run as a walk over rows\<close>

text \<open>
  The loops above the row loop add nothing to the state: the page loop is the row loop
  over the rows it reaches, the categories are these row loops in turn, and the file
  \<open>main\<close> leaves is the file of that walk.
\<close>

lemma scrape_rows_Cons:
  "scrape_rows ds c (r # rs) st =
     (fst (scrape_rows ds c rs (fst (snd (process_bid_row ds r c st)))),
      snd (snd (process_bid_row ds r c st)) @
      (case fst (process_bid_row ds r c st) of
         Inl e \<Rightarrow> [Log ERROR (RowError e)]
       | Inr u \<Rightarrow> []) @
      snd (scrape_rows ds c rs (fst (snd (process_bid_row ds r c st)))))"
  by (simp add: case_prod_beta)

lemma scrape_rows_append:
  "fst (scrape_rows ds c (xs @ ys) st) = fst (scrape_rows ds c ys (fst (scrape_rows ds c xs st)))"
proof (induction xs arbitrary: st)
  case Nil
  then show ?case by simp
next
  case (Cons x xs)
  show ?case
    using Cons.IH [of "fst (snd (process_bid_row ds x c st))"]
    by (simp add: scrape_rows_Cons del: scrape_rows.simps)
qed

lemma table_walk:
  "table_state ds c pages st = fst (scrape_rows ds c (walked_rows pages) st)"
proof (induction pages arbitrary: st)
  case Nil
  then show ?case by (simp add: table_stop)
next
  case (Cons p ps)
  show ?case
  proof (cases "page_rows p = []")
    case True
    then show ?thesis by (simp add: table_stop)
  next
    case False
    show ?thesis
    proof (cases "fst (navigate_to_next_page (p # ps))")
      case stop: False
      show ?thesis
        using table_last [of "p # ps" ds c st] False stop by simp
    next
      case go: True
      show ?thesis
        using table_next [of "p # ps" ds c st] False go
          Cons.IH [of "fst (scrape_rows ds c (page_rows p) st)"]
        by (simp add: scrape_rows_append [of ds c "page_rows p"])
    qed
  qed
qed

lemma categories_walk:
  "fst (process_categories ds site cs st) = walk_categories ds site cs st"
proof (induction cs arbitrary: st)
  case Nil
  then show ?case by simp
next
  case (Cons c cs)
  show ?case
  proof (cases "site (snd c)")
    case None
    show ?thesis
      using Cons.IH [of st] None
      by (simp add: category_step_closed [of site c ds cs] del: process_categories.simps)
  next
    case (Some pages)
    show ?thesis
      using Cons.IH [of "table_state ds (fst c) pages st"] Some
      by (simp add: category_step_open [of site c pages ds cs] table_walk
          del: process_categories.simps)
  qed
qed

lemma main_walk:
  "fst (main rd ds site d) =
     fst (walk_categories ds site categories (d, fst (load_processed_bid_ids rd d)))"
  by (simp add: main_unfold categories_walk)

text \<open>
  A file that cannot be read is never changed: every append to it fails and is
  swallowed.
\<close>

lemma unreadable_row:
  assumes "xlsx_file (fst st) = Some Unreadable" and "wfaults (fst st) = []"
  shows "fst (fst (snd (process_bid_row ds r c st))) = fst st"
proof (cases "detail r")
  case None
  then show ?thesis
    by (auto simp: process_bid_row_def Let_def)
next
  case (Some m)
  have ap: "append_to_excel bid_data (fst st) =
      (Inr (), fst st, [Log ERROR (SaveFailed InvalidFileException)])" for bid_data
    using assms by (simp add: append_to_excel_def next_fault_def Let_def)
  show ?thesis
    using Some by (auto simp: process_bid_row_def Let_def ap split: prod.splits)
qed

lemma unreadable_rows:
  assumes "xlsx_file (fst st) = Some Unreadable" and "wfaults (fst st) = []"
  shows "fst (fst (scrape_rows ds c rs st)) = fst st"
  using assms
proof (induction rs arbitrary: st)
  case Nil
  then show ?case by simp
next
  case (Cons r rs)
  have one: "fst (fst (snd (process_bid_row ds r c st))) = fst st"
    using Cons.prems by (rule unreadable_row)
  have "fst (fst (scrape_rows ds c rs (fst (snd (process_bid_row ds r c st))))) =
      fst (fst (snd (process_bid_row ds r c st)))"
    using Cons.prems one by (intro Cons.IH) simp_all
  then show ?case
    using one by (simp add: scrape_rows_Cons del: scrape_rows.simps)
qed

lemma unreadable_walk:
  assumes "xlsx_file (fst st) = Some Unreadable" and "wfaults (fst st) = []"
  shows "fst (walk_categories ds site cs st) = fst st"
  using assms
proof (induction cs arbitrary: st)
  case Nil
  then show ?case by simp
next
  case (Cons c cs)
  define st1 where "st1 =
    (case site (snd c) of
       None \<Rightarrow> st
     | Some pages \<Rightarrow> fst (scrape_rows ds (fst c) (walked_rows pages) st))"
  have one: "fst st1 = fst st"
    using Cons.prems unreadable_rows [of st ds "fst c"]
    by (simp add: st1_def split: option.splits)
  have "fst (walk_categories ds site cs st1) = fst st1"
    using Cons.prems one by (intro Cons.IH) simp_all
  then show ?case
    using one by (simp add: st1_def)
qed

lemma unreadable_run:
  assumes "xlsx_file d = Some Unreadable" and "wfaults d = []"
  shows "fst (main rd ds site d) = d"
  using unreadable_walk [of "(d, fst (load_processed_bid_ids rd d))" ds site categories] assms
  by (simp add: main_walk)

text \<open>
  A first pass settles every row it reaches, and keeps the set in memory in step with
  the file; a pass over rows that are all settled changes nothing and saves nothing.
\<close>

lemma first_pass_walk:
  assumes "in_step rd st"
    and "\<forall>c \<in> set cs. \<forall>pages. site (snd c) = Some pages \<longrightarrow>
           (\<forall>r \<in> set (walked_rows pages). 7 \<le> length (cells r) \<longrightarrow> reads_back rd r)"
  shows "in_step rd (walk_categories ds site cs st)
         \<and> snd st \<subseteq> snd (walk_categories ds site cs st)
         \<and> (\<forall>c \<in> set cs. \<forall>pages. site (snd c) = Some pages \<longrightarrow>
               (\<forall>r \<in> set (walked_rows pages). settled r (snd (walk_categories ds site cs st))))"
  using assms
proof (induction cs arbitrary: st)
  case Nil
  then show ?case by simp
next
  case (Cons c cs)
  define st1 where "st1 =
    (case site (snd c) of
       None \<Rightarrow> st
     | Some pages \<Rightarrow> fst (scrape_rows ds (fst c) (walked_rows pages) st))"
  have rest: "\<forall>c \<in> set cs. \<forall>pages. site (snd c) = Some pages \<longrightarrow>
           (\<forall>r \<in> set (walked_rows pages). 7 \<le> length (cells r) \<longrightarrow> reads_back rd r)"
    using Cons.prems(2) by simp
  have step: "in_step rd st1 \<and> snd st \<subseteq> snd st1
      \<and> (\<forall>pages. site (snd c) = Some pages \<longrightarrow> (\<forall>r \<in> set (walked_rows pages). settled r (snd st1)))"
  proof (cases "site (snd c)")
    case None
    then show ?thesis
      using Cons.prems(1) by (simp add: st1_def)
  next
    case (Some pages)
    have rb: "\<forall>r \<in> set (walked_rows pages). 7 \<le> length (cells r) \<longrightarrow> reads_back rd r"
      using Cons.prems(2) Some by simp
    show ?thesis
      using first_pass_rows [OF Cons.prems(1) rb, of ds "fst c"] Some by (simp add: st1_def)
  qed
  have ih: "in_step rd (walk_categories ds site cs st1)
         \<and> snd st1 \<subseteq> snd (walk_categories ds site cs st1)
         \<and> (\<forall>c \<in> set cs. \<forall>pages. site (snd c) = Some pages \<longrightarrow>
               (\<forall>r \<in> set (walked_rows pages). settled r (snd (walk_categories ds site cs st1))))"
    using step rest by (intro Cons.IH) simp_all
  have eq: "walk_categories ds site (c # cs) st = walk_categories ds site cs st1"
    by (simp add: st1_def)
  have head: "\<forall>pages. site (snd c) = Some pages \<longrightarrow>
      (\<forall>r \<in> set (walked_rows pages). settled r (snd (walk_categories ds site cs st1)))"
    using step ih by (blast intro: settled_mono)
  show ?case
    unfolding eq using step ih head by auto
qed

lemma second_pass_table:
  assumes "\<forall>r \<in> set (walked_rows pages). settled r S"
  shows "table_state ds c pages (d, S) = (d, S)
         \<and> filter is_saved (table_events ds c pages (d, S)) = []"
  using assms
proof (induction pages)
  case Nil
  then show ?case by (simp add: table_stop)
next
  case (Cons p ps)
  show ?case
  proof (cases "page_rows p = []")
    case True
    then show ?thesis by (simp add: table_stop)
  next
    case False
    have "\<forall>r \<in> set (page_rows p). settled r S"
      using Cons.prems False by simp
    then have rows: "fst (scrape_rows ds c (page_rows p) (d, S)) = (d, S)
        \<and> filter is_saved (snd (scrape_rows ds c (page_rows p) (d, S))) = []"
      by (rule second_pass_rows)
    show ?thesis
    proof (cases "fst (navigate_to_next_page (p # ps))")
      case stop: False
      show ?thesis
        using table_last [of "p # ps" ds c "(d, S)"] False stop rows
          navigate_not_saved [of "p # ps"]
        by simp
    next
      case go: True
      have "\<forall>r \<in> set (walked_rows ps). settled r S"
        using Cons.prems False go by simp
      then have "table_state ds c ps (d, S) = (d, S)
          \<and> filter is_saved (table_events ds c ps (d, S)) = []"
        by (rule Cons.IH)
      then show ?thesis
        using table_next [of "p # ps" ds c "(d, S)"] False go rows by simp
    qed
  qed
qed

lemma second_pass_categories:
  assumes "\<forall>c \<in> set cs. \<forall>pages. site (snd c) = Some pages \<longrightarrow>
           (\<forall>r \<in> set (walked_rows pages). settled r S)"
  shows "fst (process_categories ds site cs (d, S)) = (d, S)
         \<and> filter is_saved (snd (process_categories ds site cs (d, S))) = []"
  using assms
proof (induction cs)
  case Nil
  then show ?case by simp
next
  case (Cons c cs)
  have ih: "fst (process_categories ds site cs (d, S)) = (d, S)
      \<and> filter is_saved (snd (process_categories ds site cs (d, S))) = []"
    using Cons.prems by (intro Cons.IH) simp
  show ?case
  proof (cases "site (snd c)")
    case None
    show ?thesis
      using ih None
      by (simp add: category_step_closed [of site c ds cs] del: process_categories.simps)
  next
    case (Some pages)
    have "\<forall>r \<in> set (walked_rows pages). settled r S"
      using Cons.prems Some by simp
    then have "table_state ds (fst c) pages (d, S) = (d, S)
        \<and> filter is_saved (table_events ds (fst c) pages (d, S)) = []"
      by (rule second_pass_table)
    then show ?thesis
      using ih Some
      by (simp add: category_step_open [of site c pages ds cs] del: process_categories.simps)
  qed
qed

lemma run_rows_iff:
  "r \<in> set (run_rows site) \<longleftrightarrow>
     (\<exists>c \<in> set categories. \<exists>pages. site (snd c) = Some pages \<and> r \<in> set (walked_rows pages))"
proof
  assume "r \<in> set (run_rows site)"
  then obtain c where c: "c \<in> set categories"
    and r: "r \<in> set (case site (snd c) of None \<Rightarrow> [] | Some pages \<Rightarrow> walked_rows pages)"
    unfolding run_rows_def by auto
  show "\<exists>c \<in> set categories. \<exists>pages. site (snd c) = Some pages \<and> r \<in> set (walked_rows pages)"
    using c r by (cases "site (snd c)") auto
next
  assume "\<exists>c \<in> set categories. \<exists>pages. site (snd c) = Some pages \<and> r \<in> set (walked_rows pages)"
  then obtain c pages where "c \<in> set categories" "site (snd c) = Some pages"
      "r \<in> set (walked_rows pages)"
    by blast
  then show "r \<in> set (run_rows site)"
    unfolding run_rows_def by (auto intro!: bexI [of _ c])
qed

lemma opened_row_is_stored:
  "settled r S \<Longrightarrow> 7 \<le> length (cells r) \<Longrightarrow> \<not> cannot_open r \<Longrightarrow> row_key r \<in> S"
  by (auto simp: settled_def cannot_open_def)

section \<open>The second run\<close>

text \<open>
  C2, with what it needs said. The first run, over \<open>site\<close>, starts with no file, with a
  file that cannot be read, or with a sheet that has \<open>Bid ID\<close> as its second column; no
  write is refused; and the file gives the Bid ID of every well-formed row the run
  reaches back as the string the row is keyed by. The second run, over \<open>site'\<close>, starts
  from the file the first run left, and every well-formed row it reaches and can open
  has the key of a well-formed row that the first run reached and could open: the data
  set has no new Bid ID, and no row whose details failed to open in the first run opens
  in the second. Then the second run leaves the file (and the fault schedule) exactly
  as the first run left it: it appends nothing. Unless the file is the unreadable one,
  it logs no save either. The second site may be the first.
\<close>

theorem C2_second_run_appends_nothing:
  assumes store: "good_store (xlsx_file d0) \<or> xlsx_file d0 = Some Unreadable"
    and nofault: "wfaults d0 = []"
    and ids: "\<forall>r \<in> set (run_rows site). 7 \<le> length (cells r) \<longrightarrow> reads_back rd r"
    and same: "\<forall>r \<in> set (run_rows site').
                 7 \<le> length (cells r) \<and> \<not> cannot_open r \<longrightarrow> opens_in site r"
  shows "fst (main rd ds site' (fst (main rd ds site d0))) = fst (main rd ds site d0)
         \<and> (good_store (xlsx_file d0) \<longrightarrow>
              filter is_saved (snd (main rd ds site' (fst (main rd ds site d0)))) = [])
         \<and> fst (main rd ds site (fst (main rd ds site d0))) = fst (main rd ds site d0)"
proof (cases "xlsx_file d0 = Some Unreadable")
  case True
  have "fst (main rd ds site d0) = d0"
    using True nofault by (rule unreadable_run)
  moreover have "fst (main rd ds site' d0) = d0"
    using True nofault by (rule unreadable_run)
  ultimately show ?thesis
    using True by (simp add: good_store_def)
next
  case False
  then have good: "good_store (xlsx_file d0)"
    using store by simp
  define st0 where "st0 = (d0, fst (load_processed_bid_ids rd d0))"
  define st1 where "st1 = walk_categories ds site categories st0"
  have inv0: "in_step rd st0"
    using good nofault by (simp add: in_step_def st0_def)
  have rb: "\<forall>c \<in> set categories. \<forall>pages. site (snd c) = Some pages \<longrightarrow>
           (\<forall>r \<in> set (walked_rows pages). 7 \<le> length (cells r) \<longrightarrow> reads_back rd r)"
    using ids run_rows_iff [of _ site] by blast
  have pass: "in_step rd st1
         \<and> (\<forall>c \<in> set categories. \<forall>pages. site (snd c) = Some pages \<longrightarrow>
               (\<forall>r \<in> set (walked_rows pages). settled r (snd st1)))"
    unfolding st1_def using first_pass_walk [OF inv0 rb] by simp
  have first: "\<forall>r \<in> set (run_rows site). settled r (snd st1)"
    using pass run_rows_iff [of _ site] by blast
  have second: "settled r (snd st1)" if r: "r \<in> set (run_rows site')" for r
  proof (cases "7 \<le> length (cells r) \<and> \<not> cannot_open r")
    case True
    then have "opens_in site r"
      using same r by blast
    then obtain r1 where r1: "r1 \<in> set (run_rows site)" "7 \<le> length (cells r1)"
        "\<not> cannot_open r1" "row_key r1 = row_key r"
      unfolding opens_in_def by blast
    have "row_key r1 \<in> snd st1"
      using first r1 by (intro opened_row_is_stored) simp_all
    then show ?thesis
      using r1(4) by (simp add: settled_def)
  next
    case False
    then show ?thesis
      by (auto simp: settled_def cannot_open_def)
  qed
  have run1: "fst (main rd ds site d0) = fst st1"
    by (simp add: main_walk st1_def st0_def)
  have reload: "fst (load_processed_bid_ids rd (fst st1)) = snd st1"
    using pass by (simp add: in_step_def)
  have again: "fst (process_categories ds s categories (fst st1, snd st1)) = (fst st1, snd st1)
      \<and> filter is_saved (snd (process_categories ds s categories (fst st1, snd st1))) = []"
    if "\<forall>r \<in> set (run_rows s). settled r (snd st1)" for s
    using that run_rows_iff [of _ s] by (intro second_pass_categories) blast
  have run2: "fst (main rd ds s (fst st1)) = fst st1
      \<and> filter is_saved (snd (main rd ds s (fst st1))) = []"
    if "\<forall>r \<in> set (run_rows s). settled r (snd st1)" for s
    using again [OF that] reload load_not_saved [of rd "fst st1"]
    by (simp add: main_unfold)
  show ?thesis
    using run2 [of site'] run2 [of site] first second by (simp add: run1)
qed

theorem C2_second_run_appends_nothing_witness:
  "(good_store (xlsx_file \<lparr>xlsx_file = None, wfaults = []\<rparr>)
      \<or> xlsx_file \<lparr>xlsx_file = None, wfaults = []\<rparr> = Some Unreadable)
   \<and> wfaults \<lparr>xlsx_file = None, wfaults = []\<rparr> = []
   \<and> good_store (xlsx_file \<lparr>xlsx_file = None, wfaults = []\<rparr>)
   \<and> opens_in (open_only two_pages) (grid_row (Some ''A2'') True (Some plain_modal))
   \<and> fst (main pandas_astype_str (\<lambda>d. ''{}'') (open_only two_pages)
        (fst (main pandas_astype_str (\<lambda>d. ''{}'') (open_only two_pages)
           \<lparr>xlsx_file = None, wfaults = []\<rparr>))) =
      fst (main pandas_astype_str (\<lambda>d. ''{}'') (open_only two_pages)
        \<lparr>xlsx_file = None, wfaults = []\<rparr>)
   \<and> filter is_saved (snd (main pandas_astype_str (\<lambda>d. ''{}'') (open_only two_pages)
        (fst (main pandas_astype_str (\<lambda>d. ''{}'') (open_only two_pages)
           \<lparr>xlsx_file = None, wfaults = []\<rparr>)))) = []
   \<and> fst (main pandas_astype_str (\<lambda>d. ''{}'')
        (open_only (one_page (grid_row (Some ''A2'') True (Some plain_modal))))
        (fst (main pandas_astype_str (\<lambda>d. ''{}'') (open_only two_pages)
           \<lparr>xlsx_file = None, wfaults = []\<rparr>))) =
      fst (main pandas_astype_str (\<lambda>d. ''{}'') (open_only two_pages)
        \<lparr>xlsx_file = None, wfaults = []\<rparr>)
   \<and> fst (main pandas_astype_str (\<lambda>d. ''{}'') (open_only two_pages)
        (fst (main pandas_astype_str (\<lambda>d. ''{}'') (open_only two_pages)
           \<lparr>xlsx_file = Some Unreadable, wfaults = []\<rparr>))) =
      fst (main pandas_astype_str (\<lambda>d. ''{}'') (open_only two_pages)
        \<lparr>xlsx_file = Some Unreadable, wfaults = []\<rparr>)"
proof -
  have good: "good_store (xlsx_file \<lparr>xlsx_file = None, wfaults = []\<rparr>)"
    by (simp add: good_store_def)
  have store: "good_store (xlsx_file \<lparr>xlsx_file = None, wfaults = []\<rparr>)
      \<or> xlsx_file \<lparr>xlsx_file = None, wfaults = []\<rparr> = Some Unreadable"
    using good by simp
  have store': "good_store (xlsx_file \<lparr>xlsx_file = Some Unreadable, wfaults = []\<rparr>)
      \<or> xlsx_file \<lparr>xlsx_file = Some Unreadable, wfaults = []\<rparr> = Some Unreadable"
    by simp
  have nofault: "wfaults \<lparr>xlsx_file = None, wfaults = []\<rparr> = []"
    and nofault': "wfaults \<lparr>xlsx_file = Some Unreadable, wfaults = []\<rparr> = []"
    by simp_all
  have rows: "run_rows (open_only two_pages) =
      [grid_row (Some ''A1'') True (Some plain_modal),
       grid_row (Some ''A2'') True (Some plain_modal),
       grid_row (Some ''A3'') True (Some plain_modal)]"
    by (simp add: run_rows_def categories_def open_only_def two_pages_def
        navigate_to_next_page_def sublist_Cons_right)
  have rows': "run_rows (open_only (one_page (grid_row (Some ''A2'') True (Some plain_modal)))) =
      [grid_row (Some ''A2'') True (Some plain_modal)]"
    by (simp add: run_rows_def categories_def open_only_def one_page_def
        navigate_to_next_page_def)
  have ids: "\<forall>r \<in> set (run_rows (open_only two_pages)).
      7 \<le> length (cells r) \<longrightarrow> reads_back pandas_astype_str r"
    by (simp add: rows grid_row_def reads_back_def row_key_def)
  have opens: "opens_in (open_only two_pages) (grid_row (Some k) True (Some plain_modal))"
    if "k \<in> {''A1'', ''A2'', ''A3''}" for k
    using that by (auto simp: opens_in_def rows grid_row_def cannot_open_def row_key_def)
  have same: "\<forall>r \<in> set (run_rows (open_only two_pages)).
      7 \<le> length (cells r) \<and> \<not> cannot_open r \<longrightarrow> opens_in (open_only two_pages) r"
    using opens by (simp add: rows)
  have same': "\<forall>r \<in> set (run_rows (open_only (one_page (grid_row (Some ''A2'') True (Some plain_modal))))).
      7 \<le> length (cells r) \<and> \<not> cannot_open r \<longrightarrow> opens_in (open_only two_pages) r"
    using opens by (simp add: rows')
  show ?thesis
    using good store nofault opens [of "''A2''"]
      C2_second_run_appends_nothing [OF store nofault ids same, of "\<lambda>d. ''{}''"]
      C2_second_run_appends_nothing [OF store nofault ids same', of "\<lambda>d. ''{}''"]
      C2_second_run_appends_nothing [OF store' nofault' ids same, of "\<lambda>d. ''{}''"]
    by simp
qed

text \<open>The definitions a run on a concrete site is evaluated with.\<close>

lemmas run_defs =
  main_def process_bid_categories_def categories_def open_only_def one_page_def grid_row_def plain_cell_def
  plain_modal_def load_processed_bid_ids_def scrape_bids_from_table.simps
  navigate_to_next_page_def process_bid_row_def extract_modal_data_def bid_summary_def
  dict_merge_def append_to_excel_def next_fault_def column_value_def Let_def

text \<open>
  C2, as first stated, holds for every pair of runs. It does not where a write is
  refused, which the scraper answers by design with a retry on the next run: the file
  holds \<open>A0\<close>, the site shows \<open>A1\<close>, and the one append of the first run is refused
  with a \<open>PermissionError\<close>. The first run leaves the file as it was; the second run,
  over the same site and started from that file, appends \<open>A1\<close>.
\<close>

theorem C2_refused_write_is_retried:
  "fst (main pandas_astype_str (\<lambda>d. ''{}'')
          (open_only (one_page (grid_row (Some ''A1'') True (Some plain_modal))))
          \<lparr>xlsx_file = Some (Sheet [''Category'', ''Bid ID''] [[PStr ''Open'', PStr ''A0'']]),
           wfaults = [Some Denied]\<rparr>) =
     \<lparr>xlsx_file = Some (Sheet [''Category'', ''Bid ID''] [[PStr ''Open'', PStr ''A0'']]),
      wfaults = []\<rparr>
   \<and> fst (main pandas_astype_str (\<lambda>d. ''{}'')
          (open_only (one_page (grid_row (Some ''A1'') True (Some plain_modal))))
          \<lparr>xlsx_file = Some (Sheet [''Category'', ''Bid ID''] [[PStr ''Open'', PStr ''A0'']]),
           wfaults = []\<rparr>) =
     \<lparr>xlsx_file = Some (Sheet [''Category'', ''Bid ID'']
        [[PStr ''Open'', PStr ''A0''],
         [PStr ''Open'', PStr ''A1'', PStr ''C-17'', PStr ''Road salt'', PStr ''01/02/2025'',
          PStr ''02/03/2025'', PStr ''DOT'', PStr ''7210'', PStr ''bids@delaware.gov'',
          PStr ''01/02/2025'', PStr ''N/A'', PStr ''N/A'', PStr ''N/A'']]),
      wfaults = []\<rparr>"
  by (simp add: run_defs)

text \<open>
  The condition on the rows that open is needed. Where the modal of \<open>A1\<close> does not
  appear in the first run, nothing is saved and no file is left; where it appears in the
  second run, that run appends \<open>A1\<close>, as the retry of a failed row is meant to.
\<close>

lemma row_that_opens_later_is_appended:
  "fst (main pandas_astype_str (\<lambda>d. ''{}'')
          (open_only (one_page (grid_row (Some ''A1'') True None)))
          \<lparr>xlsx_file = None, wfaults = []\<rparr>) =
     \<lparr>xlsx_file = None, wfaults = []\<rparr>
   \<and> fst (main pandas_astype_str (\<lambda>d. ''{}'')
          (open_only (one_page (grid_row (Some ''A1'') True (Some plain_modal))))
          \<lparr>xlsx_file = None, wfaults = []\<rparr>) =
     \<lparr>xlsx_file = Some (Sheet
        [''Category'', ''Bid ID'', ''Contract Number'', ''Title'', ''Open Date'', ''Deadline'',
         ''Agency'', ''UNSPSC'', ''Contact Email'', ''Solicitation Ad Date'',
         ''Deadline for Bid Responses'', ''Important Message'', ''Documents'']
        [[PStr ''Open'', PStr ''A1'', PStr ''C-17'', PStr ''Road salt'', PStr ''01/02/2025'',
          PStr ''02/03/2025'', PStr ''DOT'', PStr ''7210'', PStr ''bids@delaware.gov'',
          PStr ''01/02/2025'', PStr ''N/A'', PStr ''N/A'', PStr ''N/A'']]),
      wfaults = []\<rparr>"
  by (simp add: run_defs)

section \<open>Rows without a Bid ID\<close>

text \<open>The set of processed ids only grows, through every loop of a run.\<close>

lemma process_bid_row_seen_grows:
  "snd st \<subseteq> snd (fst (snd (process_bid_row ds r c st)))"
  by (auto simp: process_bid_row_def Let_def split: option.splits prod.splits sum.splits)

lemma scrape_rows_seen_grows:
  "snd st \<subseteq> snd (fst (scrape_rows ds c rs st))"
proof (induction rs arbitrary: st)
  case Nil
  then show ?case by simp
next
  case (Cons r rs)
  obtain res st1 ev1 where p: "process_bid_row ds r c st = (res, st1, ev1)"
    by (cases "process_bid_row ds r c st")
  have "snd st \<subseteq> snd st1"
    using process_bid_row_seen_grows [of st ds r c] p by simp
  moreover have "snd st1 \<subseteq> snd (fst (scrape_rows ds c rs st1))"
    by (rule Cons.IH)
  ultimately show ?case
    using p by (auto split: prod.splits)
qed

lemma table_seen_grows:
  "snd st \<subseteq> snd (table_state ds c pages st)"
proof (induction pages arbitrary: st)
  case Nil
  then show ?case by (simp add: table_stop)
next
  case (Cons p ps)
  show ?case
  proof (cases "page_rows p = []")
    case True
    then show ?thesis by (simp add: table_stop)
  next
    case False
    have rows: "snd st \<subseteq> snd (fst (scrape_rows ds c (page_rows p) st))"
      by (rule scrape_rows_seen_grows)
    show ?thesis
    proof (cases "fst (navigate_to_next_page (p # ps))")
      case stop: False
      show ?thesis
        using rows table_last [of "p # ps" ds c st] False stop by simp
    next
      case go: True
      have "snd (fst (scrape_rows ds c (page_rows p) st))
          \<subseteq> snd (table_state ds c ps (fst (scrape_rows ds c (page_rows p) st)))"
        by (rule Cons.IH)
      then show ?thesis
        using rows table_next [of "p # ps" ds c st] False go by auto
    qed
  qed
qed

lemma categories_seen_grow:
  "snd st \<subseteq> snd (fst (process_categories ds site cs st))"
proof (induction cs arbitrary: st)
  case Nil
  then show ?case by simp
next
  case (Cons c cs)
  show ?case
  proof (cases "site (snd c)")
    case None
    show ?thesis
      using Cons.IH [of st] None
      by (simp add: category_step_closed [of site c ds cs] del: process_categories.simps)
  next
    case (Some pages)
    have "snd st \<subseteq> snd (table_state ds (fst c) pages st)"
      by (rule table_seen_grows)
    moreover have "snd (table_state ds (fst c) pages st)
        \<subseteq> snd (fst (process_categories ds site cs (table_state ds (fst c) pages st)))"
      by (rule Cons.IH)
    ultimately show ?thesis
      using Some
      by (auto simp: category_step_open [of site c pages ds cs] simp del: process_categories.simps)
  qed
qed

lemma created_when_not_refused:
  "xlsx_file d = None \<Longrightarrow> next_fault d = None \<Longrightarrow>
   append_to_excel bid_data d =
     (Inr (),
      \<lparr>xlsx_file = Some (Sheet (map fst bid_data) [map snd bid_data]), wfaults = tl (wfaults d)\<rparr>,
      [Log INFO CreatedFile])"
  by (simp add: append_to_excel_def Let_def)

lemma extended_when_not_refused:
  "xlsx_file d = Some (Sheet hdr recs) \<Longrightarrow> next_fault d = None \<Longrightarrow>
   append_to_excel bid_data d =
     (Inr (),
      \<lparr>xlsx_file = Some (Sheet hdr (recs @ [map snd bid_data])), wfaults = tl (wfaults d)\<rparr>, [])"
  by (simp add: append_to_excel_def Let_def)

text \<open>
  C10. A row of at least seven cells whose first cell has no \<open>title\<close> attribute is not
  taken as malformed; its key is the string \<open>None\<close>. With \<open>None\<close> in the set of
  processed ids the row is skipped with the log line of a skip. Without it, when the
  details open, the record has an empty Bid ID, and what follows depends on the append.
  A write that is not refused, to no file or to a sheet that can be read, records the
  row, and \<open>None\<close> joins the set. A write to a file that is there but is refused or
  cannot be read records nothing; the append returns all the same, and \<open>None\<close> joins
  the set. A refused creation of the file raises, and the set stays as it was. The set
  only grows during a run, so once \<open>None\<close> is in it every row without a Bid ID met in
  the same run, on this page, a later page or a later category, is skipped.
\<close>

theorem C10_missing_id_is_keyed_None:
  assumes len: "7 \<le> length (cells r)"
    and noid: "title (cells r ! 0) = None"
  shows "(''None'' \<in> S \<longrightarrow>
            process_bid_row ds r c (d, S) = (Inr (), (d, S), [Log INFO (Skipping PNone)]))
       \<and> (''None'' \<notin> S \<and> anchor (cells r ! 2) \<and> detail r = Some m \<longrightarrow>
            map_of (bid_summary c (cells r) @ fst (extract_modal_data ds m)) ''Bid ID'' = Some PNone
            \<and> (xlsx_file d = None \<and> next_fault d = None \<longrightarrow>
                 fst (process_bid_row ds r c (d, S)) = Inr ()
                 \<and> snd (fst (snd (process_bid_row ds r c (d, S)))) = insert ''None'' S
                 \<and> xlsx_file (fst (fst (snd (process_bid_row ds r c (d, S))))) =
                     Some (Sheet (map fst (bid_summary c (cells r) @ fst (extract_modal_data ds m)))
                             [map snd (bid_summary c (cells r) @ fst (extract_modal_data ds m))]))
            \<and> (xlsx_file d = Some (Sheet hdr recs) \<and> next_fault d = None \<longrightarrow>
                 fst (process_bid_row ds r c (d, S)) = Inr ()
                 \<and> snd (fst (snd (process_bid_row ds r c (d, S)))) = insert ''None'' S
                 \<and> xlsx_file (fst (fst (snd (process_bid_row ds r c (d, S))))) =
                     Some (Sheet hdr
                             (recs @ [map snd (bid_summary c (cells r) @ fst (extract_modal_data ds m))])))
            \<and> (xlsx_file d \<noteq> None \<and> (next_fault d \<noteq> None \<or> xlsx_file d = Some Unreadable) \<longrightarrow>
                 fst (process_bid_row ds r c (d, S)) = Inr ()
                 \<and> snd (fst (snd (process_bid_row ds r c (d, S)))) = insert ''None'' S
                 \<and> xlsx_file (fst (fst (snd (process_bid_row ds r c (d, S))))) = xlsx_file d)
            \<and> (xlsx_file d = None \<and> next_fault d = Some f \<longrightarrow>
                 fst (process_bid_row ds r c (d, S)) = Inl (fault_exn f)
                 \<and> snd (fst (snd (process_bid_row ds r c (d, S)))) = S
                 \<and> xlsx_file (fst (fst (snd (process_bid_row ds r c (d, S))))) = None))
       \<and> (''None'' \<in> S \<longrightarrow>
            ''None'' \<in> snd (fst (scrape_rows ds c' rs (d, S)))
            \<and> ''None'' \<in> snd (table_state ds c' pages (d, S))
            \<and> ''None'' \<in> snd (fst (process_bid_categories ds site (d, S))))"
proof -
  define bid_data where "bid_data = bid_summary c (cells r) @ fst (extract_modal_data ds m)"
  have key: "row_key r = ''None''"
    using noid by (simp add: row_key_def)
  have skip: "process_bid_row ds r c (d, S) = (Inr (), (d, S), [Log INFO (Skipping PNone)])"
    if "''None'' \<in> S"
    using that len noid by (simp add: process_bid_row_def Let_def)
  have cell: "map_of bid_data ''Bid ID'' = Some PNone"
    using noid by (simp add: bid_data_def bid_summary_def)
  have opened: "process_bid_row ds r c (d, S) =
     (case append_to_excel bid_data d of
        (Inl e, d', evs') \<Rightarrow>
          (Inl e, (d', S),
           [ClickTitle, WaitModal] @ snd (extract_modal_data ds m) @ [SendEscape] @ evs')
      | (Inr u, d', evs') \<Rightarrow>
          (Inr (), (d', insert ''None'' S),
           [ClickTitle, WaitModal] @ snd (extract_modal_data ds m) @ [SendEscape] @ evs' @
           [Log INFO (Saved (of_attr (title (cells r ! 0))))]))"
    if new: "''None'' \<notin> S" and a: "anchor (cells r ! 2)" and m: "detail r = Some m"
  proof -
    have uns: "\<not> settled r S"
      using len new a m key by (simp add: settled_def)
    show ?thesis
      unfolding bid_data_def by (rule unsettled_row_result [OF uns m, unfolded key])
  qed
  have created: "fst (process_bid_row ds r c (d, S)) = Inr ()
      \<and> snd (fst (snd (process_bid_row ds r c (d, S)))) = insert ''None'' S
      \<and> xlsx_file (fst (fst (snd (process_bid_row ds r c (d, S))))) =
          Some (Sheet (map fst bid_data) [map snd bid_data])"
    if "''None'' \<notin> S" and "anchor (cells r ! 2)" and "detail r = Some m"
      and none: "xlsx_file d = None" and nf: "next_fault d = None"
    using that by (simp add: opened created_when_not_refused [OF none nf])
  have extended: "fst (process_bid_row ds r c (d, S)) = Inr ()
      \<and> snd (fst (snd (process_bid_row ds r c (d, S)))) = insert ''None'' S
      \<and> xlsx_file (fst (fst (snd (process_bid_row ds r c (d, S))))) =
          Some (Sheet hdr (recs @ [map snd bid_data]))"
    if "''None'' \<notin> S" and "anchor (cells r ! 2)" and "detail r = Some m"
      and sheet: "xlsx_file d = Some (Sheet hdr recs)" and nf: "next_fault d = None"
    using that by (simp add: opened extended_when_not_refused [OF sheet nf])
  have swallowed: "fst (process_bid_row ds r c (d, S)) = Inr ()
      \<and> snd (fst (snd (process_bid_row ds r c (d, S)))) = insert ''None'' S
      \<and> xlsx_file (fst (fst (snd (process_bid_row ds r c (d, S))))) = xlsx_file d"
    if "''None'' \<notin> S" and "anchor (cells r ! 2)" and "detail r = Some m"
      and there: "xlsx_file d \<noteq> None"
      and bad: "next_fault d \<noteq> None \<or> xlsx_file d = Some Unreadable"
    using that
    by (auto simp: opened append_to_excel_def Let_def split: option.splits io_fault.splits xlsx.splits)
  have raised: "fst (process_bid_row ds r c (d, S)) = Inl (fault_exn f)
      \<and> snd (fst (snd (process_bid_row ds r c (d, S)))) = S
      \<and> xlsx_file (fst (fst (snd (process_bid_row ds r c (d, S))))) = None"
    if "''None'' \<notin> S" and "anchor (cells r ! 2)" and "detail r = Some m"
      and none: "xlsx_file d = None" and f: "next_fault d = Some f"
    using that by (simp add: opened append_to_excel_def Let_def)
  have stays: "''None'' \<in> snd (fst (scrape_rows ds c' rs (d, S)))
            \<and> ''None'' \<in> snd (table_state ds c' pages (d, S))
            \<and> ''None'' \<in> snd (fst (process_bid_categories ds site (d, S)))"
    if "''None'' \<in> S"
    using that scrape_rows_seen_grows [of "(d, S)" ds c' rs]
      table_seen_grows [of "(d, S)" ds c' pages]
      categories_seen_grow [of "(d, S)" ds site categories]
    by (auto simp: process_bid_categories_def)
  show ?thesis
    using skip cell created extended swallowed raised stays
    unfolding bid_data_def by blast
qed

theorem C10_missing_id_is_keyed_None_witness:
  "7 \<le> length (cells (grid_row None True (Some plain_modal)))
   \<and> title (cells (grid_row None True (Some plain_modal)) ! 0) = None
   \<and> process_bid_row (\<lambda>d. ''{}'') (grid_row None True (Some plain_modal)) ''Open''
        (\<lparr>xlsx_file = None, wfaults = []\<rparr>, {''None''}) =
      (Inr (), (\<lparr>xlsx_file = None, wfaults = []\<rparr>, {''None''}), [Log INFO (Skipping PNone)])
   \<and> fst (process_bid_row (\<lambda>d. ''{}'') (grid_row None True (Some plain_modal)) ''Open''
        (\<lparr>xlsx_file = None, wfaults = []\<rparr>, {})) = Inr ()
   \<and> snd (fst (snd (process_bid_row (\<lambda>d. ''{}'') (grid_row None True (Some plain_modal)) ''Open''
        (\<lparr>xlsx_file = None, wfaults = []\<rparr>, {})))) = {''None''}
   \<and> xlsx_file (fst (fst (snd (process_bid_row (\<lambda>d. ''{}'')
        (grid_row None True (Some plain_modal)) ''Open''
        (\<lparr>xlsx_file = Some (Sheet [''Bid ID''] []), wfaults = []\<rparr>, {}))))) =
      Some (Sheet [''Bid ID'']
        [map snd (bid_summary ''Open'' (cells (grid_row None True (Some plain_modal))) @
                  fst (extract_modal_data (\<lambda>d. ''{}'') plain_modal))])
   \<and> snd (fst (snd (process_bid_row (\<lambda>d. ''{}'') (grid_row None True (Some plain_modal)) ''Open''
        (\<lparr>xlsx_file = Some (Sheet [''Bid ID''] []), wfaults = [Some Denied]\<rparr>, {})))) = {''None''}
   \<and> xlsx_file (fst (fst (snd (process_bid_row (\<lambda>d. ''{}'')
        (grid_row None True (Some plain_modal)) ''Open''
        (\<lparr>xlsx_file = Some (Sheet [''Bid ID''] []), wfaults = [Some Denied]\<rparr>, {}))))) =
      Some (Sheet [''Bid ID''] [])
   \<and> fst (process_bid_row (\<lambda>d. ''{}'') (grid_row None True (Some plain_modal)) ''Open''
        (\<lparr>xlsx_file = None, wfaults = [Some Denied]\<rparr>, {})) = Inl PermissionError
   \<and> snd (fst (snd (process_bid_row (\<lambda>d. ''{}'') (grid_row None True (Some plain_modal)) ''Open''
        (\<lparr>xlsx_file = None, wfaults = [Some Denied]\<rparr>, {})))) = {}
   \<and> ''None'' \<in> snd (fst (scrape_rows (\<lambda>d. ''{}'') ''Open''
        [grid_row (Some ''A1'') True (Some plain_modal)]
        (\<lparr>xlsx_file = None, wfaults = []\<rparr>, {''None''})))"
proof -
  have len: "7 \<le> length (cells (grid_row None True (Some plain_modal)))"
    by (simp add: grid_row_def)
  have noid: "title (cells (grid_row None True (Some plain_modal)) ! 0) = None"
    by (simp add: grid_row_def)
  have a: "anchor (cells (grid_row None True (Some plain_modal)) ! 2)"
    and m: "detail (grid_row None True (Some plain_modal)) = Some plain_modal"
    by (simp_all add: grid_row_def)
  show ?thesis
    using len noid a m
      C10_missing_id_is_keyed_None [OF len noid, of "{''None''}" "\<lambda>d. ''{}''" "''Open''"
        "\<lparr>xlsx_file = None, wfaults = []\<rparr>" plain_modal "[]" "[]" Denied "''Open''"
        "[grid_row (Some ''A1'') True (Some plain_modal)]" "[]" "\<lambda>t. None"]
      C10_missing_id_is_keyed_None [OF len noid, of "{}" "\<lambda>d. ''{}''" "''Open''"
        "\<lparr>xlsx_file = None, wfaults = []\<rparr>" plain_modal "[]" "[]" Denied "''Open''"
        "[]" "[]" "\<lambda>t. None"]
      C10_missing_id_is_keyed_None [OF len noid, of "{}" "\<lambda>d. ''{}''" "''Open''"
        "\<lparr>xlsx_file = Some (Sheet [''Bid ID''] []), wfaults = []\<rparr>" plain_modal
        "[''Bid ID'']" "[]" Denied "''Open''" "[]" "[]" "\<lambda>t. None"]
      C10_missing_id_is_keyed_None [OF len noid, of "{}" "\<lambda>d. ''{}''" "''Open''"
        "\<lparr>xlsx_file = Some (Sheet [''Bid ID''] []), wfaults = [Some Denied]\<rparr>" plain_modal
        "[''Bid ID'']" "[]" Denied "''Open''" "[]" "[]" "\<lambda>t. None"]
      C10_missing_id_is_keyed_None [OF len noid, of "{}" "\<lambda>d. ''{}''" "''Open''"
        "\<lparr>xlsx_file = None, wfaults = [Some Denied]\<rparr>" plain_modal
        "[]" "[]" Denied "''Open''" "[]" "[]" "\<lambda>t. None"]
    by (simp add: next_fault_def del: scrape_rows.simps)
qed

text \<open>
  C10, as first stated, has every later row without a Bid ID skipped for the lifetime
  of the file. The key \<open>None\<close> does not survive the file: the missing Bid ID is
  stored as an empty cell and comes back as \<open>nan\<close>. The first run records the row; a
  second run over the same site, started from that file, records it again.
\<close>

theorem C10_missing_id_recorded_again:
  "fst (main pandas_astype_str (\<lambda>d. ''{}'')
          (open_only (one_page (grid_row None True (Some plain_modal))))
          \<lparr>xlsx_file = None, wfaults = []\<rparr>) =
     \<lparr>xlsx_file = Some (Sheet
        [''Category'', ''Bid ID'', ''Contract Number'', ''Title'', ''Open Date'', ''Deadline'',
         ''Agency'', ''UNSPSC'', ''Contact Email'', ''Solicitation Ad Date'',
         ''Deadline for Bid Responses'', ''Important Message'', ''Documents'']
        [[PStr ''Open'', PNone, PStr ''C-17'', PStr ''Road salt'', PStr ''01/02/2025'',
          PStr ''02/03/2025'', PStr ''DOT'', PStr ''7210'', PStr ''bids@delaware.gov'',
          PStr ''01/02/2025'', PStr ''N/A'', PStr ''N/A'', PStr ''N/A'']]),
      wfaults = []\<rparr>
   \<and> fst (main pandas_astype_str (\<lambda>d. ''{}'')
          (open_only (one_page (grid_row None True (Some plain_modal))))
          \<lparr>xlsx_file = Some (Sheet
             [''Category'', ''Bid ID'', ''Contract Number'', ''Title'', ''Open Date'', ''Deadline'',
              ''Agency'', ''UNSPSC'', ''Contact Email'', ''Solicitation Ad Date'',
              ''Deadline for Bid Responses'', ''Important Message'', ''Documents'']
             [[PStr ''Open'', PNone, PStr ''C-17'', PStr ''Road salt'', PStr ''01/02/2025'',
               PStr ''02/03/2025'', PStr ''DOT'', PStr ''7210'', PStr ''bids@delaware.gov'',
               PStr ''01/02/2025'', PStr ''N/A'', PStr ''N/A'', PStr ''N/A'']]),
           wfaults = []\<rparr>) =
     \<lparr>xlsx_file = Some (Sheet
        [''Category'', ''Bid ID'', ''Contract Number'', ''Title'', ''Open Date'', ''Deadline'',
         ''Agency'', ''UNSPSC'', ''Contact Email'', ''Solicitation Ad Date'',
         ''Deadline for Bid Responses'', ''Important Message'', ''Documents'']
        [[PStr ''Open'', PNone, PStr ''C-17'', PStr ''Road salt'', PStr ''01/02/2025'',
          PStr ''02/03/2025'', PStr ''DOT'', PStr ''7210'', PStr ''bids@delaware.gov'',
          PStr ''01/02/2025'', PStr ''N/A'', PStr ''N/A'', PStr ''N/A''],
         [PStr ''Open'', PNone, PStr ''C-17'', PStr ''Road salt'', PStr ''01/02/2025'',
          PStr ''02/03/2025'', PStr ''DOT'', PStr ''7210'', PStr ''bids@delaware.gov'',
          PStr ''01/02/2025'', PStr ''N/A'', PStr ''N/A'', PStr ''N/A'']]),
      wfaults = []\<rparr>"
  by (simp add: run_defs)

section \<open>A row that fails\<close>

lemma cannot_open_untouched:
  "cannot_open r \<Longrightarrow> fst (snd (process_bid_row ds r c st)) = st"
  by (auto simp: cannot_open_def process_bid_row_def Let_def)

lemma failed_row_keeps_file_and_ids:
  assumes "fst (process_bid_row ds r c st) = Inl e"
  shows "xlsx_file (fst (fst (snd (process_bid_row ds r c st)))) = xlsx_file (fst st)
         \<and> snd (fst (snd (process_bid_row ds r c st))) = snd st"
proof (cases "detail r")
  case None
  then show ?thesis
    by (auto simp: process_bid_row_def Let_def)
next
  case (Some m)
  obtain md evs where md: "extract_modal_data ds m = (md, evs)"
    by (cases "extract_modal_data ds m")
  obtain res d' evs' where ap:
    "append_to_excel (dict_merge (bid_summary c (cells r)) md) (fst st) = (res, d', evs')"
    by (cases "append_to_excel (dict_merge (bid_summary c (cells r)) md) (fst st)")
  have keep: "res = Inl e' \<Longrightarrow> xlsx_file d' = xlsx_file (fst st)" for e'
    using ap
    by (auto simp: append_to_excel_def Let_def split: option.splits io_fault.splits xlsx.splits)
  show ?thesis
    using assms Some md ap keep
    by (cases res) (auto simp: process_bid_row_def Let_def split: if_splits)
qed

lemma table_outcome_any_state:
  "fst (scrape_bids_from_table ds c pages st) = fst (scrape_bids_from_table ds c pages st')
   \<and> fst (snd (scrape_bids_from_table ds c pages st)) =
       fst (snd (scrape_bids_from_table ds c pages st'))"
proof (induction pages arbitrary: st st')
  case Nil
  show ?case
    by (subst (1 2 3 4) scrape_bids_from_table_unfold) simp
next
  case (Cons p ps)
  show ?case
  proof (cases "page_rows p = [] \<or> \<not> fst (navigate_to_next_page (p # ps))")
    case True
    then show ?thesis
      by (subst (1 2 3 4) scrape_bids_from_table_unfold) auto
  next
    case False
    then have n: "navigate_to_next_page (p # ps) = (True, ps, [ClickNext])"
      using navigate_click [of "p # ps"] by simp
    have ih: "fst (scrape_bids_from_table ds c ps (fst (scrape_rows ds c (page_rows p) st))) =
          fst (scrape_bids_from_table ds c ps (fst (scrape_rows ds c (page_rows p) st')))
        \<and> fst (snd (scrape_bids_from_table ds c ps (fst (scrape_rows ds c (page_rows p) st)))) =
          fst (snd (scrape_bids_from_table ds c ps (fst (scrape_rows ds c (page_rows p) st'))))"
      by (rule Cons.IH)
    show ?thesis
      using False n ih
      by (subst (1 2 3 4) scrape_bids_from_table_unfold) simp
  qed
qed

lemma status_rows_Cons:
  "process_bids_for_status_rows status (r # rs) bids =
     (fst (process_bids_for_status_rows status rs
             (fst (snd (process_bids_for_status_row status r bids)))),
      snd (snd (process_bids_for_status_row status r bids)) @
      (case fst (process_bids_for_status_row status r bids) of
         Inl e \<Rightarrow> Print (ErrorProcessingRow e) # close_stray_modal r
       | Inr u \<Rightarrow> []) @
      snd (process_bids_for_status_rows status rs
             (fst (snd (process_bids_for_status_row status r bids)))))"
  by (simp add: case_prod_beta)

lemma status_rows_append:
  "fst (process_bids_for_status_rows status (xs @ ys) bids) =
     fst (process_bids_for_status_rows status ys (fst (process_bids_for_status_rows status xs bids)))"
proof (induction xs arbitrary: bids)
  case Nil
  then show ?case by simp
next
  case (Cons x xs)
  show ?case
    using Cons.IH [of "fst (snd (process_bids_for_status_row status x bids))"]
    by (simp add: status_rows_Cons del: process_bids_for_status_rows.simps)
qed

lemma refused_click_untouched:
  "\<not> click_ok tr \<Longrightarrow> fst (snd (process_bids_for_status_row status tr bids)) = bids"
  by (simp add: process_bids_for_status_row_def Let_def)

lemma failed_status_row_untouched:
  "fst (process_bids_for_status_row status tr bids) = Inl e \<Longrightarrow>
   fst (snd (process_bids_for_status_row status tr bids)) = bids"
  by (auto simp: process_bids_for_status_row_def Let_def
      split: if_splits prod.splits option.splits bool.splits)

lemma navigate_by_button:
  "next_btn p = next_btn p' \<Longrightarrow>
   fst (navigate_to_next_page (p # ps)) = fst (navigate_to_next_page (p' # ps'))"
  by (auto simp: navigate_to_next_page_def split: next_button.splits option.splits)

lemma rows_without_failed_row:
  assumes "cannot_open r"
  shows "fst (scrape_rows ds c (xs @ r # ys) st) = fst (scrape_rows ds c (xs @ ys) st)"
proof -
  have "fst (scrape_rows ds c (r # ys) s) = fst (scrape_rows ds c ys s)" for s
    using cannot_open_untouched [OF assms, of ds c s]
    by (simp add: scrape_rows_Cons del: scrape_rows.simps)
  then show ?thesis
    by (simp add: scrape_rows_append [of ds c xs] del: scrape_rows.simps)
qed

lemma walk_without_failed_row:
  assumes co: "cannot_open r" and ne: "xs @ ys \<noteq> []"
  shows "fst (scrape_rows ds c
            (walked_rows (pre @ \<lparr>page_rows = xs @ r # ys, next_btn = b\<rparr> # post)) st) =
         fst (scrape_rows ds c
            (walked_rows (pre @ \<lparr>page_rows = xs @ ys, next_btn = b\<rparr> # post)) st)"
proof (induction pre arbitrary: st)
  case Nil
  have nav: "fst (navigate_to_next_page (\<lparr>page_rows = xs @ r # ys, next_btn = b\<rparr> # post)) =
      fst (navigate_to_next_page (\<lparr>page_rows = xs @ ys, next_btn = b\<rparr> # post))"
    by (rule navigate_by_button) simp
  show ?case
  proof (cases "fst (navigate_to_next_page (\<lparr>page_rows = xs @ ys, next_btn = b\<rparr> # post))")
    case True
    show ?thesis
      using ne nav True rows_without_failed_row [OF co, of ds c xs "ys @ walked_rows post" st]
      by auto
  next
    case False
    show ?thesis
      using ne nav False rows_without_failed_row [OF co, of ds c xs ys st]
      by auto
  qed
next
  case (Cons q pre)
  have nav: "fst (navigate_to_next_page
        (q # pre @ \<lparr>page_rows = xs @ r # ys, next_btn = b\<rparr> # post)) =
      fst (navigate_to_next_page (q # pre @ \<lparr>page_rows = xs @ ys, next_btn = b\<rparr> # post))"
    by (rule navigate_by_button) simp
  show ?case
    using nav Cons.IH [of "fst (scrape_rows ds c (page_rows q) st)"]
    by (simp add: scrape_rows_append [of ds c "page_rows q"])
qed

lemma table_without_failed_row:
  assumes "cannot_open r" and "xs @ ys \<noteq> []"
  shows "table_state ds c (pre @ \<lparr>page_rows = xs @ r # ys, next_btn = b\<rparr> # post) st =
         table_state ds c (pre @ \<lparr>page_rows = xs @ ys, next_btn = b\<rparr> # post) st"
  using walk_without_failed_row [OF assms] by (simp add: table_walk)

lemma walk_categories_without_failed_row:
  assumes co: "cannot_open r" and ne: "xs @ ys \<noteq> []"
    and site: "site tab = Some (pre @ \<lparr>page_rows = xs @ r # ys, next_btn = b\<rparr> # post)"
  shows "walk_categories ds site cs st =
         walk_categories ds
           (site(tab := Some (pre @ \<lparr>page_rows = xs @ ys, next_btn = b\<rparr> # post))) cs st"
proof (induction cs arbitrary: st)
  case Nil
  then show ?case by simp
next
  case (Cons c cs)
  show ?case
  proof (cases "snd c = tab")
    case True
    show ?thesis
      using True site Cons.IH walk_without_failed_row [OF co ne, of ds "fst c" pre b post st]
      by simp
  next
    case False
    show ?thesis
      using False Cons.IH by simp
  qed
qed

text \<open>
  C3, with the recovery close where the code has it. In \<open>scraper.py\<close> an exception of
  \<open>process_bid_row\<close> is caught by the row loop: the events of the row are followed by
  one ERROR line and then by the next row, with no close of the modal in between; the
  file and the processed ids are as before the row. The loops above never stop for a
  row: the state after the page loop is the state of the row loop over every row of
  every page reached, the state after the categories is that of these row loops one
  category after the other, and the file \<open>main\<close> leaves is the file of that walk. A
  row whose details cannot be opened changes none of it: the state after the rows of its
  page is what it would be without the row; where the page has another row, the state
  after the page loop, the state after the categories and the file after the run are
  what they are on a site without that row. In \<open>end.py\<close> an exception of the row's body is
  printed, the handler then looks for the close button of the modal (and clicks it when
  there is one), the loop goes on with the next row, and a row that refuses the click
  leaves the collected records as they would be without it.
\<close>

theorem C3_row_fault_is_contained:
  "(fst (process_bid_row ds r c st) = Inl e \<longrightarrow>
      scrape_rows ds c (r # rs) st =
        (fst (scrape_rows ds c rs (fst (snd (process_bid_row ds r c st)))),
         snd (snd (process_bid_row ds r c st)) @ Log ERROR (RowError e) #
         snd (scrape_rows ds c rs (fst (snd (process_bid_row ds r c st)))))
      \<and> xlsx_file (fst (fst (snd (process_bid_row ds r c st)))) = xlsx_file (fst st)
      \<and> snd (fst (snd (process_bid_row ds r c st))) = snd st)
   \<and> (cannot_open r \<longrightarrow>
        fst (scrape_rows ds c (xs @ r # ys) st) = fst (scrape_rows ds c (xs @ ys) st))
   \<and> table_state ds c pages st = fst (scrape_rows ds c (walked_rows pages) st)
   \<and> fst (process_bid_categories ds site st) = walk_categories ds site categories st
   \<and> fst (main rd ds site d) =
       fst (walk_categories ds site categories (d, fst (load_processed_bid_ids rd d)))
   \<and> (cannot_open r \<and> xs @ ys \<noteq> []
        \<and> site tab = Some (pre @ \<lparr>page_rows = xs @ r # ys, next_btn = b\<rparr> # post) \<longrightarrow>
        table_state ds c (pre @ \<lparr>page_rows = xs @ r # ys, next_btn = b\<rparr> # post) st =
        table_state ds c (pre @ \<lparr>page_rows = xs @ ys, next_btn = b\<rparr> # post) st
        \<and> fst (process_bid_categories ds site st) =
            fst (process_bid_categories ds
                   (site(tab := Some (pre @ \<lparr>page_rows = xs @ ys, next_btn = b\<rparr> # post))) st)
        \<and> fst (main rd ds site d) =
            fst (main rd ds
                   (site(tab := Some (pre @ \<lparr>page_rows = xs @ ys, next_btn = b\<rparr> # post))) d))
   \<and> (fst (process_bids_for_status_row status tr bids) = Inl e' \<longrightarrow>
        process_bids_for_status_rows status (tr # trs) bids =
          (fst (process_bids_for_status_rows status trs bids),
           snd (snd (process_bids_for_status_row status tr bids)) @
           Print (ErrorProcessingRow e') # close_stray_modal tr @
           snd (process_bids_for_status_rows status trs bids))
        \<and> hd (close_stray_modal tr) = FindClose)
   \<and> (\<not> click_ok tr \<longrightarrow>
        fst (process_bids_for_status_rows status (txs @ tr # tys) bids) =
        fst (process_bids_for_status_rows status (txs @ tys) bids))"
proof -
  have caught: "scrape_rows ds c (r # rs) st =
        (fst (scrape_rows ds c rs (fst (snd (process_bid_row ds r c st)))),
         snd (snd (process_bid_row ds r c st)) @ Log ERROR (RowError e) #
         snd (scrape_rows ds c rs (fst (snd (process_bid_row ds r c st)))))"
    if "fst (process_bid_row ds r c st) = Inl e"
    using that by (simp add: scrape_rows_Cons del: scrape_rows.simps)
  have kept: "xlsx_file (fst (fst (snd (process_bid_row ds r c st)))) = xlsx_file (fst st)
      \<and> snd (fst (snd (process_bid_row ds r c st))) = snd st"
    if "fst (process_bid_row ds r c st) = Inl e"
    using that by (rule failed_row_keeps_file_and_ids)
  have alone: "fst (scrape_rows ds c (xs @ r # ys) st) = fst (scrape_rows ds c (xs @ ys) st)"
    if "cannot_open r"
    using that by (rule rows_without_failed_row)
  have cats: "fst (process_bid_categories ds site s) = walk_categories ds site categories s"
    for site s
    by (simp add: process_bid_categories_def categories_walk)
  have away: "table_state ds c (pre @ \<lparr>page_rows = xs @ r # ys, next_btn = b\<rparr> # post) st =
        table_state ds c (pre @ \<lparr>page_rows = xs @ ys, next_btn = b\<rparr> # post) st
        \<and> fst (process_bid_categories ds site st) =
            fst (process_bid_categories ds
                   (site(tab := Some (pre @ \<lparr>page_rows = xs @ ys, next_btn = b\<rparr> # post))) st)
        \<and> fst (main rd ds site d) =
            fst (main rd ds
                   (site(tab := Some (pre @ \<lparr>page_rows = xs @ ys, next_btn = b\<rparr> # post))) d)"
    if co: "cannot_open r" and ne: "xs @ ys \<noteq> []"
      and site: "site tab = Some (pre @ \<lparr>page_rows = xs @ r # ys, next_btn = b\<rparr> # post)"
  proof -
    have w: "walk_categories ds site categories s =
        walk_categories ds
          (site(tab := Some (pre @ \<lparr>page_rows = xs @ ys, next_btn = b\<rparr> # post))) categories s"
      for s
      using co ne site by (rule walk_categories_without_failed_row)
    show ?thesis
      using table_without_failed_row [OF co ne, of ds c pre b post st]
        w [of st] w [of "(d, fst (load_processed_bid_ids rd d))"]
      by (simp only: cats main_walk)
  qed
  have caught': "process_bids_for_status_rows status (tr # trs) bids =
          (fst (process_bids_for_status_rows status trs bids),
           snd (snd (process_bids_for_status_row status tr bids)) @
           Print (ErrorProcessingRow e') # close_stray_modal tr @
           snd (process_bids_for_status_rows status trs bids))
        \<and> hd (close_stray_modal tr) = FindClose"
    if f: "fst (process_bids_for_status_row status tr bids) = Inl e'"
  proof -
    have "fst (snd (process_bids_for_status_row status tr bids)) = bids"
      using f by (rule failed_status_row_untouched)
    moreover have "hd (close_stray_modal tr) = FindClose"
      by (simp add: close_stray_modal_def split: option.splits bool.splits)
    ultimately show ?thesis
      using f by (simp add: status_rows_Cons del: process_bids_for_status_rows.simps)
  qed
  have alone': "fst (process_bids_for_status_rows status (txs @ tr # tys) bids) =
        fst (process_bids_for_status_rows status (txs @ tys) bids)"
    if "\<not> click_ok tr"
  proof -
    have "fst (process_bids_for_status_rows status (tr # tys) b) =
        fst (process_bids_for_status_rows status tys b)" for b
      using refused_click_untouched [OF that, of status b]
      by (simp add: status_rows_Cons del: process_bids_for_status_rows.simps)
    then show ?thesis
      by (simp add: status_rows_append [of status txs] del: process_bids_for_status_rows.simps)
  qed
  show ?thesis
    using caught kept alone away caught' alone' table_walk [of ds c pages st]
      cats [of site st] main_walk [of rd ds site d]
    by blast
qed

theorem C3_row_fault_is_contained_witness:
  "fst (process_bid_row (\<lambda>d. ''{}'') (grid_row (Some ''A1'') True None) ''Open'' (\<lparr>xlsx_file = None, wfaults = []\<rparr>, {})) = Inl TimeoutException
   \<and> cannot_open (grid_row (Some ''A1'') True None)
   \<and> open_only [\<lparr>page_rows = [grid_row (Some ''A0'') True (Some plain_modal), grid_row (Some ''A1'') True None, grid_row (Some ''A2'') True (Some plain_modal)], next_btn = NoButton\<rparr>] ''btnOpen'' =
       Some [\<lparr>page_rows = [grid_row (Some ''A0'') True (Some plain_modal), grid_row (Some ''A1'') True None, grid_row (Some ''A2'') True (Some plain_modal)], next_btn = NoButton\<rparr>]
   \<and> scrape_rows (\<lambda>d. ''{}'') ''Open'' [grid_row (Some ''A1'') True None, grid_row (Some ''A2'') True (Some plain_modal)] (\<lparr>xlsx_file = None, wfaults = []\<rparr>, {}) =
       (fst (scrape_rows (\<lambda>d. ''{}'') ''Open'' [grid_row (Some ''A2'') True (Some plain_modal)] (\<lparr>xlsx_file = None, wfaults = []\<rparr>, {})),
        [ClickTitle, WaitModal, Log ERROR (RowError TimeoutException)] @
        snd (scrape_rows (\<lambda>d. ''{}'') ''Open'' [grid_row (Some ''A2'') True (Some plain_modal)] (\<lparr>xlsx_file = None, wfaults = []\<rparr>, {})))
   \<and> fst (scrape_rows (\<lambda>d. ''{}'') ''Open'' [grid_row (Some ''A0'') True (Some plain_modal), grid_row (Some ''A1'') True None, grid_row (Some ''A2'') True (Some plain_modal)] (\<lparr>xlsx_file = None, wfaults = []\<rparr>, {})) =
       fst (scrape_rows (\<lambda>d. ''{}'') ''Open'' [grid_row (Some ''A0'') True (Some plain_modal), grid_row (Some ''A2'') True (Some plain_modal)] (\<lparr>xlsx_file = None, wfaults = []\<rparr>, {}))
   \<and> table_state (\<lambda>d. ''{}'') ''Open'' [\<lparr>page_rows = [grid_row (Some ''A0'') True (Some plain_modal), grid_row (Some ''A1'') True None, grid_row (Some ''A2'') True (Some plain_modal)], next_btn = NoButton\<rparr>] (\<lparr>xlsx_file = None, wfaults = []\<rparr>, {}) =
       table_state (\<lambda>d. ''{}'') ''Open'' [\<lparr>page_rows = [grid_row (Some ''A0'') True (Some plain_modal), grid_row (Some ''A2'') True (Some plain_modal)], next_btn = NoButton\<rparr>] (\<lparr>xlsx_file = None, wfaults = []\<rparr>, {})
   \<and> fst (main pandas_astype_str (\<lambda>d. ''{}'') (open_only [\<lparr>page_rows = [grid_row (Some ''A0'') True (Some plain_modal), grid_row (Some ''A1'') True None, grid_row (Some ''A2'') True (Some plain_modal)], next_btn = NoButton\<rparr>]) \<lparr>xlsx_file = None, wfaults = []\<rparr>) =
       fst (main pandas_astype_str (\<lambda>d. ''{}'')
              ((open_only [\<lparr>page_rows = [grid_row (Some ''A0'') True (Some plain_modal), grid_row (Some ''A1'') True None, grid_row (Some ''A2'') True (Some plain_modal)], next_btn = NoButton\<rparr>])(''btnOpen'' := Some [\<lparr>page_rows = [grid_row (Some ''A0'') True (Some plain_modal), grid_row (Some ''A2'') True (Some plain_modal)], next_btn = NoButton\<rparr>])) \<lparr>xlsx_file = None, wfaults = []\<rparr>)
   \<and> fst (process_bids_for_status_row ''Open'' (status_row six_cols False (Some True)) []) = Inl ElementClickInterceptedException
   \<and> \<not> click_ok (status_row six_cols False (Some True))
   \<and> process_bids_for_status_rows ''Open'' [status_row six_cols False (Some True), status_row six_cols True (Some True)] [] =
       (fst (process_bids_for_status_rows ''Open'' [status_row six_cols True (Some True)] []),
        [RowClick, Print (ErrorProcessingRow ElementClickInterceptedException),
         FindClose, CloseClick] @
        snd (process_bids_for_status_rows ''Open'' [status_row six_cols True (Some True)] []))
   \<and> fst (process_bids_for_status_rows ''Open'' [status_row six_cols True (Some True), status_row six_cols False (Some True), status_row six_cols True (Some True)] []) =
       fst (process_bids_for_status_rows ''Open'' [status_row six_cols True (Some True), status_row six_cols True (Some True)] [])"
proof -
  have f: "fst (process_bid_row (\<lambda>d. ''{}'') (grid_row (Some ''A1'') True None) ''Open'' (\<lparr>xlsx_file = None, wfaults = []\<rparr>, {})) = Inl TimeoutException"
    by (simp add: process_bid_row_def grid_row_def Let_def)
  have ev: "snd (snd (process_bid_row (\<lambda>d. ''{}'') (grid_row (Some ''A1'') True None) ''Open'' (\<lparr>xlsx_file = None, wfaults = []\<rparr>, {}))) = [ClickTitle, WaitModal]"
    by (simp add: process_bid_row_def grid_row_def Let_def)
  have st: "fst (snd (process_bid_row (\<lambda>d. ''{}'') (grid_row (Some ''A1'') True None) ''Open'' (\<lparr>xlsx_file = None, wfaults = []\<rparr>, {}))) = (\<lparr>xlsx_file = None, wfaults = []\<rparr>, {})"
    by (simp add: process_bid_row_def grid_row_def Let_def)
  have co: "cannot_open (grid_row (Some ''A1'') True None)"
    by (simp add: cannot_open_def grid_row_def)
  have site: "open_only [\<lparr>page_rows = [grid_row (Some ''A0'') True (Some plain_modal), grid_row (Some ''A1'') True None, grid_row (Some ''A2'') True (Some plain_modal)], next_btn = NoButton\<rparr>] ''btnOpen'' =
       Some [\<lparr>page_rows = [grid_row (Some ''A0'') True (Some plain_modal), grid_row (Some ''A1'') True None, grid_row (Some ''A2'') True (Some plain_modal)], next_btn = NoButton\<rparr>]"
    by (simp add: open_only_def)
  have g: "fst (process_bids_for_status_row ''Open'' (status_row six_cols False (Some True)) []) = Inl ElementClickInterceptedException"
    by (simp add: process_bids_for_status_row_def status_row_def six_cols_def Let_def)
  have gev: "snd (snd (process_bids_for_status_row ''Open'' (status_row six_cols False (Some True)) [])) = [RowClick]"
    by (simp add: process_bids_for_status_row_def status_row_def six_cols_def Let_def)
  have nc: "\<not> click_ok (status_row six_cols False (Some True))"
    by (simp add: status_row_def)
  have cl: "close_stray_modal (status_row six_cols False (Some True)) = [FindClose, CloseClick]"
    by (simp add: close_stray_modal_def status_row_def)
  note all =
      C3_row_fault_is_contained
        [where r = "grid_row (Some ''A1'') True None" and ds = "(\<lambda>d. ''{}'')" and c = "''Open''"
           and st = "(\<lparr>xlsx_file = None, wfaults = []\<rparr>, {})" and e = TimeoutException
           and rs = "[grid_row (Some ''A2'') True (Some plain_modal)]" and xs = "[grid_row (Some ''A0'') True (Some plain_modal)]" and ys = "[grid_row (Some ''A2'') True (Some plain_modal)]"
           and pages = "[]" and site = "open_only [\<lparr>page_rows = [grid_row (Some ''A0'') True (Some plain_modal), grid_row (Some ''A1'') True None, grid_row (Some ''A2'') True (Some plain_modal)], next_btn = NoButton\<rparr>]" and rd = pandas_astype_str and d = "\<lparr>xlsx_file = None, wfaults = []\<rparr>"
           and tab = "''btnOpen''" and pre = "[]" and b = NoButton and post = "[]"
           and status = "''Open''" and tr = "status_row six_cols False (Some True)" and bids = "[]"
           and e' = ElementClickInterceptedException and trs = "[status_row six_cols True (Some True)]"
           and txs = "[status_row six_cols True (Some True)]" and tys = "[status_row six_cols True (Some True)]"]
  show ?thesis
    using f co site g nc
      all [THEN conjunct1]
      all [THEN conjunct2, THEN conjunct1]
      all [THEN conjunct2, THEN conjunct2, THEN conjunct2, THEN conjunct2, THEN conjunct2,
        THEN conjunct1]
      all [THEN conjunct2, THEN conjunct2, THEN conjunct2, THEN conjunct2, THEN conjunct2,
        THEN conjunct2, THEN conjunct1]
      all [THEN conjunct2, THEN conjunct2, THEN conjunct2, THEN conjunct2, THEN conjunct2,
        THEN conjunct2, THEN conjunct2]
    by (simp add: ev st gev cl
        del: scrape_rows.simps process_bids_for_status_rows.simps process_categories.simps
          walked_rows.simps walk_categories.simps)
qed

text \<open>
  C3, as first stated, has a recovery close attempted after every fault of a row. The
  row loop of \<open>scraper.py\<close> only logs: the modal of \<open>A1\<close> does not appear after the
  click on its title, the ERROR line follows, and the next event is already the click
  on the title of \<open>A2\<close>; the only Escape of the page is the one of \<open>A2\<close>, which is
  processed and saved.
\<close>

theorem C3_scraper_only_logs_a_fault:
  "scrape_rows (\<lambda>d. ''{}'') ''Open''
     [grid_row (Some ''A1'') True None, grid_row (Some ''A2'') True (Some plain_modal)]
     (\<lparr>xlsx_file = Some (Sheet [''Category'', ''Bid ID''] []), wfaults = []\<rparr>, {}) =
   ((\<lparr>xlsx_file = Some (Sheet [''Category'', ''Bid ID'']
        [[PStr ''Open'', PStr ''A2'', PStr ''C-17'', PStr ''Road salt'', PStr ''01/02/2025'',
          PStr ''02/03/2025'', PStr ''DOT'', PStr ''7210'', PStr ''bids@delaware.gov'',
          PStr ''01/02/2025'', PStr ''N/A'', PStr ''N/A'', PStr ''N/A'']]),
      wfaults = []\<rparr>, {''A2''}),
    [ClickTitle, WaitModal, Log ERROR (RowError TimeoutException),
     ClickTitle, WaitModal, SendEscape, Log INFO (Saved (PStr ''A2''))])"
  by (simp add: run_defs)

end
